theory Spec2Isabelle
  imports Complex_Main "HOL-Library.Product_Lexorder"
begin

section \<open>Values shared by the agents\<close>

text \<open>
  The repository is a pipeline of four Python modules: \<^verbatim>\<open>ingestion_agent.py\<close> parses and
  chunks documents, \<^verbatim>\<open>retrieval_agent.py\<close> indexes the chunks and searches them,
  \<^verbatim>\<open>llm_response_agent.py\<close> produces the answer, and \<^verbatim>\<open>coordinator_agent.py\<close> runs them
  in order; \<^verbatim>\<open>mcp.py\<close> builds the message envelopes that every hand-over prints.

  Python strings are modelled as \<open>string\<close>; a \<open>char\<close> stands for a code point below 256.
  Python integers are \<open>int\<close>, counts and positions that are never negative are \<open>nat\<close>,
  single-precision scores are \<open>real\<close> (rounding is not modelled).
\<close>

datatype error = ValueError | IndexError | DimensionMismatch

text \<open>An exception raised inside an external library, known by its text \<^verbatim>\<open>str(e)\<close>.\<close>

datatype exn = Exception string

fun exn_str :: "exn \<Rightarrow> string" where
  "exn_str (Exception s) = s"

text \<open>A chunk is the dict \<^verbatim>\<open>{"text": c, "meta": {"filename": f, "chunk_index": i}}\<close>; a
  retrieval result is the dict \<^verbatim>\<open>{"score": s, "meta": m, "text": t}\<close>, the same two fields
  with the score added.\<close>

record meta =
  filename :: string
  chunk_index :: nat

record chunk =
  "text" :: string
  meta :: meta

record retrieval_result = chunk +
  score :: real

text \<open>A JSON value, as \<^verbatim>\<open>resp.json()\<close> delivers it (a Python dict is the list of its items).\<close>

datatype json =
    JNull
  | JBool bool
  | JInt int
  | JFloat real
  | JStr string
  | JArr "json list"
  | JObj "(string \<times> json) list"

section \<open>mcp.py: message envelopes\<close>

text \<open>The payload dicts the four agents build, one constructor for each shape.\<close>

datatype payload =
    Build_index_payload nat
  | Document_parsed_payload string nat
  | Retrieval_result_payload "retrieval_result list" string
  | Final_response_payload string json "retrieval_result list" "json option"
  | User_query_payload string

record mcp_message =
  sender :: string
  receiver :: string
  type :: string
  trace_id :: string
  payload :: payload

text \<open>
  What a run leaves behind on the console and in the log, oldest first: \<open>Printed m\<close> is the
  pair of \<^verbatim>\<open>print\<close> calls of \<^verbatim>\<open>send_mcp_message\<close>; \<open>Logged lvl fmt args\<close> is a record of the
  \<^verbatim>\<open>logging\<close> module, with its format string and its arguments.
\<close>

datatype level = INFO | WARNING | ERROR

datatype log_arg = Arg_str string | Arg_nat nat | Arg_exn exn

datatype event = Printed mcp_message | Logged level string "log_arg list"

section \<open>The flat inner-product index\<close>

text \<open>
  Modelled from the spec: the vector index \<^verbatim>\<open>faiss.IndexFlatIP\<close>, a library that is not
  part of the sources. Section 4.2 of the specification describes it: \<open>add\<close> appends the
  vectors in submission order and never removes or changes an earlier one; \<open>search\<close>
  computes the inner product of the query against every stored vector and returns the
  \<open>k\<close> highest-scoring ordinals paired with their scores, descending by score, ties
  broken by the lower ordinal, all of them when fewer than \<open>k\<close> are stored; a query
  vector whose dimensionality differs from \<open>D\<close> fails with \<open>DimensionMismatch\<close>. The
  normalization the specification mentions is the call of \<^verbatim>\<open>faiss.normalize_L2\<close> that the
  source makes itself before it hands a vector to the index.
\<close>

record flat_index =
  d :: nat
  vectors :: "real list list"

definition IndexFlatIP :: "nat \<Rightarrow> flat_index" where
  "IndexFlatIP n = \<lparr>d = n, vectors = []\<rparr>"

definition ntotal :: "flat_index \<Rightarrow> nat" where
  "ntotal ix = length (vectors ix)"

text \<open>Modelled from the spec: \<open>add\<close> appends the entries to the backing store in
  submission order and never removes or changes an earlier one.\<close>

definition add :: "flat_index \<Rightarrow> real list list \<Rightarrow> flat_index" where
  "add ix vs = ix\<lparr>vectors := vectors ix @ vs\<rparr>"

text \<open>Modelled from the spec: \<open>search\<close> fails with \<open>DimensionMismatch\<close> when the query
  vector has another dimension than the index; otherwise it pairs every stored ordinal
  with its inner product, sorts by descending score and then ascending ordinal, and
  returns the first \<open>k\<close> pairs.\<close>

definition inner_product :: "real list \<Rightarrow> real list \<Rightarrow> real" where
  "inner_product u v = sum_list (map2 (*) u v)"

definition rank_key :: "real \<times> int \<Rightarrow> real \<times> int" where
  "rank_key h = (- fst h, snd h)"

definition search :: "flat_index \<Rightarrow> real list \<Rightarrow> int \<Rightarrow> error + (real \<times> int) list" where
  "search ix q k =
     (if length q \<noteq> d ix then Inl DimensionMismatch
      else Inr (take (nat k)
             (sort_key rank_key
               (zip (map (inner_product q) (vectors ix)) (map int [0..<ntotal ix])))))"

section \<open>The environment\<close>

text \<open>
  Everything the modules import from outside the repository and that no claim is about:
  the path functions of \<^verbatim>\<open>os.path\<close>, the five parsers (PyMuPDF, python-pptx, python-docx,
  pandas and the file system behind the \<^verbatim>\<open>parse_*\<close> wrappers: the text of the file at a
  path, or the exception raised on the way), \<^verbatim>\<open>uuid.uuid4\<close> (the n-th identifier drawn),
  the sentence-transformer model, \<^verbatim>\<open>faiss.normalize_L2\<close>, the process environment,
  \<^verbatim>\<open>requests.post\<close> (with \<^verbatim>\<open>raise_for_status\<close> and \<^verbatim>\<open>json\<close>), \<^verbatim>\<open>re.search\<close> and the
  printing of a float.
\<close>

datatype stub_pattern =
    Revenue_2023 | Revenue_2024 | Billion | Cac | Dollars | Nps | Retention | Churn
  | Employee_satisfaction | Carbon_footprint

record env =
  splitext :: "string \<Rightarrow> string \<times> string"
  basename :: "string \<Rightarrow> string"
  parse_pdf :: "string \<Rightarrow> exn + string"
  parse_pptx :: "string \<Rightarrow> exn + string"
  parse_docx :: "string \<Rightarrow> exn + string"
  parse_csv :: "string \<Rightarrow> exn + string"
  parse_txt :: "string \<Rightarrow> exn + string"
  uuid4_hex :: "nat \<Rightarrow> string"
  encode :: "string \<Rightarrow> real list"
  normalize_L2 :: "real list \<Rightarrow> real list"
  GROQ_API_KEY :: "string option"
  GROQ_API_URL :: string
  requests_post :: "string \<Rightarrow> string \<Rightarrow> string \<Rightarrow> int \<Rightarrow> exn + json"
  re_search :: "stub_pattern \<Rightarrow> string \<Rightarrow> (nat \<Rightarrow> string) option"
  str_float :: "real \<Rightarrow> string"

section \<open>The state of a run\<close>

record retrieval_agent =
  index :: "flat_index option"
  metadatas :: "meta list"
  texts :: "string list"

record world =
  default_agent :: retrieval_agent
  events :: "event list"
  uuid_draws :: nat

definition emit :: "event \<Rightarrow> world \<Rightarrow> world" where
  "emit e w = w\<lparr>events := events w @ [e]\<rparr>"

definition make_trace_id :: "env \<Rightarrow> string \<Rightarrow> world \<Rightarrow> string \<times> world" where
  "make_trace_id env prefix w =
     (prefix @ ''-'' @ take 8 (uuid4_hex env (uuid_draws w)),
      w\<lparr>uuid_draws := Suc (uuid_draws w)\<rparr>)"

definition send_mcp_message ::
  "env \<Rightarrow> string \<Rightarrow> string \<Rightarrow> string \<Rightarrow> payload \<Rightarrow> string option \<Rightarrow> world
     \<Rightarrow> mcp_message \<times> world" where
  "send_mcp_message env sndr rcvr ty pl tid w =
     (let (t, w1) = (case tid of None \<Rightarrow> make_trace_id env ''rag'' w | Some t \<Rightarrow> (t, w));
          message = \<lparr>sender = sndr, receiver = rcvr, type = ty, trace_id = t, payload = pl\<rparr>;
          w2 = emit (Printed message) w1;
          w3 = emit (Logged INFO ''MCP message: %s -> %s : %s''
                      [Arg_str sndr, Arg_str rcvr, Arg_str ty]) w2
      in (message, w3))"

section \<open>ingestion\_agent.py\<close>

text \<open>\<^verbatim>\<open>str.strip()\<close> removes the white space of \<^verbatim>\<open>str.isspace\<close> at both ends.\<close>

definition isspace :: "char \<Rightarrow> bool" where
  "isspace c = (of_char c \<in> {9, 10, 11, 12, 13, 28, 29, 30, 31, 32, 133, 160 :: nat})"

definition strip :: "string \<Rightarrow> string" where
  "strip s = rev (dropWhile isspace (rev (dropWhile isspace s)))"

text \<open>\<^verbatim>\<open>range(i, stop, step)\<close> for a step that is not negative; a step of 0 is refused by
  the caller below, as Python refuses it.\<close>

function py_range :: "nat \<Rightarrow> nat \<Rightarrow> nat \<Rightarrow> nat list" where
  "py_range i stop step =
     (if step = 0 \<or> stop \<le> i then [] else i # py_range (i + step) stop step)"
  by pat_completeness auto
termination
  by (relation "measure (\<lambda>(i, stop, step). stop - i)") auto

declare py_range.simps [simp del]

text \<open>\<^verbatim>\<open>s[i:j]\<close> for \<open>0 \<le> i \<le> j\<close>.\<close>

definition slice :: "string \<Rightarrow> nat \<Rightarrow> nat \<Rightarrow> string" where
  "slice s i j = take (j - i) (drop i s)"

definition CHUNK_SIZE :: int where
  "CHUNK_SIZE = 800"

text \<open>
  \<^verbatim>\<open>
  def _chunk_text(text, size=CHUNK_SIZE):
      text = text.strip()
      if not text:
          return []
      return [text[i:i+size] for i in range(0, len(text), size)]
  \<close>
  A size of 0 makes \<^verbatim>\<open>range\<close> raise \<^verbatim>\<open>ValueError\<close>; a negative size gives an empty range.
\<close>

definition chunk_text :: "string \<Rightarrow> int \<Rightarrow> error + string list" where
  "chunk_text text0 sz =
     (let t = strip text0 in
      if t = [] then Inr []
      else if sz = 0 then Inl ValueError
      else if sz < 0 then Inr []
      else Inr (map (\<lambda>i. slice t i (i + nat sz)) (py_range 0 (length t) (nat sz))))"

text \<open>\<^verbatim>\<open>str.lower()\<close> on code points below 256.\<close>

definition lower_char :: "char \<Rightarrow> char" where
  "lower_char c =
     (let n = (of_char c :: nat) in
      if (65 \<le> n \<and> n \<le> 90) \<or> (192 \<le> n \<and> n \<le> 214) \<or> (216 \<le> n \<and> n \<le> 222)
      then char_of (n + 32) else c)"

definition lower :: "string \<Rightarrow> string" where
  "lower s = map lower_char s"

text \<open>The \<^verbatim>\<open>try\<close> block of \<^verbatim>\<open>process_document\<close>: the parser chosen by the extension.\<close>

definition parse_by_ext :: "env \<Rightarrow> string \<Rightarrow> string \<Rightarrow> exn + string" where
  "parse_by_ext env ext file_path =
     (if ext = ''.pdf'' then parse_pdf env file_path
      else if ext \<in> set [''.pptx'', ''.ppt''] then parse_pptx env file_path
      else if ext = ''.docx'' then parse_docx env file_path
      else if ext = ''.csv'' then parse_csv env file_path
      else if ext \<in> set [''.txt'', ''.md''] then parse_txt env file_path
      else parse_txt env file_path)"

text \<open>
  \<^verbatim>\<open>process_document(file_path, filename=None)\<close>. The \<^verbatim>\<open>except Exception\<close> clause turns a
  parser's exception into a log record and the empty text. The chunking and the
  message come after the \<^verbatim>\<open>try\<close> block, so an error of \<open>chunk_text\<close> would leave the
  function.
\<close>

definition process_document ::
  "env \<Rightarrow> string \<Rightarrow> string option \<Rightarrow> world \<Rightarrow> (error + chunk list) \<times> world" where
  "process_document env file_path filename0 w =
     (let fname = (case filename0 of None \<Rightarrow> basename env file_path | Some f \<Rightarrow> f);
          ext = lower (snd (splitext env fname));
          (txt, w1) = (case parse_by_ext env ext file_path of
                         Inr t \<Rightarrow> (t, w)
                       | Inl e \<Rightarrow> ('''', emit (Logged ERROR ''Error parsing %s: %s''
                                              [Arg_str file_path, Arg_exn e]) w))
      in case chunk_text txt CHUNK_SIZE of
           Inl err \<Rightarrow> (Inl err, w1)
         | Inr pieces \<Rightarrow>
             (let chunks = map (\<lambda>(i, c). \<lparr>text = c,
                                          meta = \<lparr>filename = fname, chunk_index = i\<rparr>\<rparr>)
                             (enumerate 0 pieces);
                  (m, w2) = send_mcp_message env ''IngestionAgent'' ''RetrievalAgent''
                              ''DOCUMENT_PARSED''
                              (Document_parsed_payload fname (length chunks)) None w1;
                  w3 = emit (Logged INFO ''IngestionAgent: parsed %s -> %d chunks''
                              [Arg_str fname, Arg_nat (length chunks)]) w2
              in (Inr chunks, w3)))"

section \<open>retrieval\_agent.py\<close>

definition EMBED_DIM :: nat where
  "EMBED_DIM = 384"

text \<open>\<^verbatim>\<open>RetrievalAgent.__init__\<close>: no index yet, two empty parallel lists.\<close>

definition RetrievalAgent :: retrieval_agent where
  "RetrievalAgent = \<lparr>index = None, metadatas = [], texts = []\<rparr>"

text \<open>
  \<^verbatim>\<open>
  def build_index(self, chunks):
      texts = [c["text"] for c in chunks]
      vectors = self.model.encode(texts, ...)
      faiss.normalize_L2(vectors)
      if self.index is None:
          self.index = faiss.IndexFlatIP(EMBED_DIM)
      self.index.add(vectors)
      self.texts.extend(texts)
      for c in chunks:
          self.metadatas.append(c.get("meta", {}))
      logging.info("RetrievalAgent: index size now %d", self.index.ntotal)
  \<close>
  Every chunk that \<open>process_document\<close> builds has its \<^verbatim>\<open>"meta"\<close>, so the default of
  \<^verbatim>\<open>c.get\<close> is never used and the record has the field.
\<close>

definition build_index ::
  "env \<Rightarrow> retrieval_agent \<Rightarrow> chunk list \<Rightarrow> world \<Rightarrow> retrieval_agent \<times> world" where
  "build_index env self chunks w =
     (let txts = map text chunks;
          vecs = map (normalize_L2 env) (map (encode env) txts);
          ix = add (case index self of None \<Rightarrow> IndexFlatIP EMBED_DIM | Some ix0 \<Rightarrow> ix0) vecs;
          self1 = self\<lparr>index := Some ix, texts := texts self @ txts\<rparr>;
          self2 = self1\<lparr>metadatas := foldl (\<lambda>ms c. ms @ [meta c]) (metadatas self1) chunks\<rparr>
      in (self2, emit (Logged INFO ''RetrievalAgent: index size now %d''
                        [Arg_nat (ntotal ix)]) w))"

text \<open>
  The loop of \<^verbatim>\<open>retrieve\<close> over \<^verbatim>\<open>zip(D[0], I[0])\<close>: a negative ordinal is skipped, an
  ordinal beyond one of the parallel lists raises \<^verbatim>\<open>IndexError\<close>.
\<close>

fun results_loop ::
  "retrieval_agent \<Rightarrow> (real \<times> int) list \<Rightarrow> retrieval_result list
     \<Rightarrow> error + retrieval_result list" where
  "results_loop self [] results = Inr results"
| "results_loop self ((sc, idx) # rest) results =
     (if idx < 0 then results_loop self rest results
      else if length (metadatas self) \<le> nat idx then Inl IndexError
      else if length (texts self) \<le> nat idx then Inl IndexError
      else results_loop self rest
             (results @ [\<lparr>text = texts self ! nat idx, meta = metadatas self ! nat idx,
                          score = sc\<rparr>]))"

text \<open>
  \<^verbatim>\<open>
  def retrieve(self, query, top_k=5):
      if self.index is None or self.index.ntotal == 0:
          return []
      q_vec = self.model.encode([query], ...)
      faiss.normalize_L2(q_vec)
      D, I = self.index.search(q_vec, top_k)
      ...
  \<close>
\<close>

definition retrieve ::
  "env \<Rightarrow> retrieval_agent \<Rightarrow> string \<Rightarrow> int \<Rightarrow> error + retrieval_result list" where
  "retrieve env self query top_k =
     (case index self of
        None \<Rightarrow> Inr []
      | Some ix \<Rightarrow>
          if ntotal ix = 0 then Inr []
          else (let q_vec = normalize_L2 env (encode env query)
                in case search ix q_vec top_k of
                     Inl e \<Rightarrow> Inl e
                   | Inr hits \<Rightarrow> results_loop self hits []))"

text \<open>The module-level wrappers around the singleton \<^verbatim>\<open>_default_agent\<close>.\<close>

definition index_chunks :: "env \<Rightarrow> chunk list \<Rightarrow> world \<Rightarrow> world" where
  "index_chunks env chunks w =
     (case build_index env (default_agent w) chunks w of
        (self, w1) \<Rightarrow> w1\<lparr>default_agent := self\<rparr>)"

definition handle_query ::
  "env \<Rightarrow> string \<Rightarrow> int \<Rightarrow> world \<Rightarrow> (error + retrieval_result list) \<times> world" where
  "handle_query env query top_k w =
     (case retrieve env (default_agent w) query top_k of
        Inl e \<Rightarrow> (Inl e, w)
      | Inr found \<Rightarrow>
          (case send_mcp_message env ''RetrievalAgent'' ''LLMResponseAgent''
                  ''RETRIEVAL_RESULT'' (Retrieval_result_payload found query) None w of
             (m, w1) \<Rightarrow> (Inr found, w1)))"

section \<open>llm\_response\_agent.py\<close>

text \<open>
  The patterns of \<^verbatim>\<open>extract_stub_answers\<close>, each with its flags:
  \<^item> \<open>Revenue_2023\<close>: \<^verbatim>\<open>\$[0-9.]+\s*billion.*2023\<close>; \<open>Revenue_2024\<close>: the same with 2024;
  \<^item> \<open>Billion\<close>: \<^verbatim>\<open>\$[0-9.]+\s*billion\<close>; \<open>Dollars\<close>: \<^verbatim>\<open>\$[0-9]+\<close>;
  \<^item> \<open>Cac\<close>: \<^verbatim>\<open>CAC.*?\$[0-9]+\<close>, ignoring case; \<open>Nps\<close>: \<^verbatim>\<open>NPS.*?(\d{2})\<close>, ignoring case;
  \<^item> \<open>Retention\<close>: \<^verbatim>\<open>Retention rate was (\d+)%\<close>, ignoring case;
  \<^item> \<open>Churn\<close>: \<^verbatim>\<open>churn rate (decreased to|was) (\d+)%\<close>, ignoring case;
  \<^item> \<open>Employee_satisfaction\<close>: \<^verbatim>\<open>Employee satisfaction.*?(\d+)%\<close>, ignoring case;
  \<^item> \<open>Carbon_footprint\<close>: \<^verbatim>\<open>carbon footprint.*?(\d+)%\<close>, ignoring case.

  \<open>re_search env p s\<close> is \<^verbatim>\<open>re.search\<close> of pattern \<open>p\<close> in \<open>s\<close>: no match, or the groups of
  the match (\<open>m 0\<close> is \<^verbatim>\<open>m.group()\<close>). The rules are tried in the order of the source; a
  rule whose second search finds nothing falls through to the next one.
\<close>

definition extract_stub_answers :: "env \<Rightarrow> string \<Rightarrow> string" where
  "extract_stub_answers env txt =
    (case (case re_search env Revenue_2023 txt of
             None \<Rightarrow> None | Some m \<Rightarrow> re_search env Billion (m 0)) of
       Some v \<Rightarrow> ''(Stub Answer) Revenue in 2023 was '' @ v 0
     | None \<Rightarrow>
    (case (case re_search env Revenue_2024 txt of
             None \<Rightarrow> None | Some m \<Rightarrow> re_search env Billion (m 0)) of
       Some v \<Rightarrow> ''(Stub Answer) Revenue in 2024 was '' @ v 0
     | None \<Rightarrow>
    (case (case re_search env Cac txt of
             None \<Rightarrow> None | Some m \<Rightarrow> re_search env Dollars (m 0)) of
       Some v \<Rightarrow> ''(Stub Answer) Customer Acquisition Cost was '' @ v 0
     | None \<Rightarrow>
    (case re_search env Nps txt of
       Some m \<Rightarrow> ''(Stub Answer) Net Promoter Score was '' @ m 1
     | None \<Rightarrow>
    (case re_search env Retention txt of
       Some m \<Rightarrow> ''(Stub Answer) Retention rate was '' @ m 1 @ ''%''
     | None \<Rightarrow>
    (case re_search env Churn txt of
       Some m \<Rightarrow> ''(Stub Answer) Churn rate was '' @ m 2 @ ''%''
     | None \<Rightarrow>
    (case re_search env Employee_satisfaction txt of
       Some m \<Rightarrow> ''(Stub Answer) Employee satisfaction score was '' @ m 1 @ ''%''
     | None \<Rightarrow>
    (case re_search env Carbon_footprint txt of
       Some m \<Rightarrow> ''(Stub Answer) Carbon footprint reduced by '' @ m 1 @ ''%''
     | None \<Rightarrow>
       ''(Stub Answer) ''
         @ map (\<lambda>c. if c = CHR 0x0A then CHR '' '' else c) (take 400 txt)))))))))"

text \<open>\<^verbatim>\<open>sep.join(xs)\<close>, the decimal \<^verbatim>\<open>str\<close> of a count, and the name Python gives the type
  of a JSON value.\<close>

fun join :: "string \<Rightarrow> string list \<Rightarrow> string" where
  "join sep [] = []"
| "join sep [x] = x"
| "join sep (x # y # ys) = x @ sep @ join sep (y # ys)"

fun str_nat :: "nat \<Rightarrow> string" where
  "str_nat n =
     (if n < 10 then [char_of (48 + n)] else str_nat (n div 10) @ [char_of (48 + n mod 10)])"

declare str_nat.simps [simp del]

fun type_name :: "json \<Rightarrow> string" where
  "type_name JNull = ''NoneType''"
| "type_name (JBool b) = ''bool''"
| "type_name (JInt i) = ''int''"
| "type_name (JFloat x) = ''float''"
| "type_name (JStr s) = ''str''"
| "type_name (JArr xs) = ''list''"
| "type_name (JObj kvs) = ''dict''"

definition dict_get :: "(string \<times> json) list \<Rightarrow> string \<Rightarrow> json \<Rightarrow> json" where
  "dict_get kvs k dflt = (case map_of kvs k of None \<Rightarrow> dflt | Some v \<Rightarrow> v)"

text \<open>
  \<^verbatim>\<open>call_llm(prompt, retrieved, max_tokens=512)\<close> returns the dict
  \<^verbatim>\<open>{"answer": ..., "raw": ...}\<close>, here a pair. Without a key the local stub answers. With
  a key, the \<^verbatim>\<open>try\<close> block posts the prompt; \<^verbatim>\<open>except Exception\<close> catches what the request
  raises, and the \<^verbatim>\<open>AttributeError\<close> of \<^verbatim>\<open>data.get\<close> when the body is not a JSON object.
\<close>

definition llm_failed :: "exn \<Rightarrow> world \<Rightarrow> (json \<times> json option) \<times> world" where
  "llm_failed e w =
     ((JStr (''[LLM error] '' @ exn_str e), None),
      emit (Logged ERROR ''LLM call failed: %s'' [Arg_exn e]) w)"

definition call_llm ::
  "env \<Rightarrow> string \<Rightarrow> retrieval_result list \<Rightarrow> int \<Rightarrow> world
     \<Rightarrow> (json \<times> json option) \<times> world" where
  "call_llm env prompt retrieved max_tokens w =
     (case (case GROQ_API_KEY env of None \<Rightarrow> None
            | Some key \<Rightarrow> if key = [] then None else Some key) of
        None \<Rightarrow>
          (let w1 = emit (Logged WARNING ''GROQ_API_KEY not set; using local stub LLM.'' []) w
           in if retrieved \<noteq> []
              then ((JStr (extract_stub_answers env
                             (join '' '' (map text (take 3 retrieved)))), None), w1)
              else ((JStr ''(Stub Answer) No relevant context found.'', None), w1))
      | Some key \<Rightarrow>
          (case requests_post env (GROQ_API_URL env) (''Bearer '' @ key) prompt max_tokens of
             Inl e \<Rightarrow> llm_failed e w
           | Inr data \<Rightarrow>
               (case data of
                  JObj kvs \<Rightarrow>
                    ((dict_get kvs ''output'' (dict_get kvs ''answer'' (JStr [])), Some data), w)
                | _ \<Rightarrow>
                    llm_failed (Exception (CHR 0x27 # type_name data
                                  @ [CHR 0x27] @ '' object has no attribute ''
                                  @ [CHR 0x27] @ ''get'' @ [CHR 0x27])) w)))"

definition nl :: string where
  "nl = [CHR 0x0A]"

definition format_prompt :: "env \<Rightarrow> string \<Rightarrow> retrieval_result list \<Rightarrow> string" where
  "format_prompt env query retrieved =
     join nl
       ([''You are a helpful assistant. Use only the context below to answer the question. If the answer is not present, say you don''
           @ [CHR 0x27] @ ''t know.'',
         nl @ ''### Query:'' @ nl @ query @ nl,
         ''### Context (top chunks):'' @ nl]
        @ map (\<lambda>(i, r). ''[Chunk '' @ str_nat i @ ''] source='' @ filename (meta r)
                  @ '' idx='' @ str_nat (chunk_index (meta r))
                  @ '' score='' @ str_float env (score r) @ nl @ text r @ nl @ ''---'' @ nl)
            (enumerate 0 retrieved)
        @ [nl @ ''Provide a concise answer, and list which chunk(s) were used as sources (by filename + chunk_index).''])"

record response =
  answer :: json
  retrieved :: "retrieval_result list"

definition answer_query ::
  "env \<Rightarrow> string \<Rightarrow> retrieval_result list \<Rightarrow> world \<Rightarrow> response \<times> world" where
  "answer_query env query rs w =
     (let prompt = format_prompt env query rs;
          w1 = emit (Logged INFO ''LLMResponseAgent: sending prompt (len=%d chars)''
                      [Arg_nat (length prompt)]) w;
          ((ans, raw), w2) = call_llm env prompt rs 512 w1;
          (m, w3) = send_mcp_message env ''LLMResponseAgent'' ''UI'' ''FINAL_RESPONSE''
                      (Final_response_payload query ans rs raw) None w2
      in (\<lparr>answer = ans, retrieved = rs\<rparr>, w3))"

section \<open>coordinator\_agent.py\<close>

text \<open>The loop over \<^verbatim>\<open>file_paths\<close> that extends \<^verbatim>\<open>all_chunks\<close>.\<close>

fun ingest_loop ::
  "env \<Rightarrow> string list \<Rightarrow> chunk list \<Rightarrow> world \<Rightarrow> (error + chunk list) \<times> world" where
  "ingest_loop env [] all_chunks w = (Inr all_chunks, w)"
| "ingest_loop env (p # ps) all_chunks w =
     (case process_document env p (Some p) w of
        (Inl e, w1) \<Rightarrow> (Inl e, w1)
      | (Inr chunks, w1) \<Rightarrow> ingest_loop env ps (all_chunks @ chunks) w1)"

text \<open>
  \<^verbatim>\<open>handle_uploads_and_query(file_paths, query)\<close>: ingest, send \<^verbatim>\<open>BUILD_INDEX\<close>, index when
  there are chunks, retrieve with \<^verbatim>\<open>top_k=5\<close>, answer.
\<close>

definition handle_uploads_and_query ::
  "env \<Rightarrow> string list \<Rightarrow> string \<Rightarrow> world \<Rightarrow> (error + response) \<times> world" where
  "handle_uploads_and_query env file_paths query w =
     (case ingest_loop env file_paths [] w of
        (Inl e, w1) \<Rightarrow> (Inl e, w1)
      | (Inr all_chunks, w1) \<Rightarrow>
          (let (m, w2) = send_mcp_message env ''CoordinatorAgent'' ''RetrievalAgent''
                           ''BUILD_INDEX'' (Build_index_payload (length all_chunks)) None w1;
               w3 = (if all_chunks \<noteq> [] then index_chunks env all_chunks w2 else w2)
           in case handle_query env query 5 w3 of
                (Inl e, w4) \<Rightarrow> (Inl e, w4)
              | (Inr found, w4) \<Rightarrow>
                  (case answer_query env query found w4 of
                     (resp, w5) \<Rightarrow> (Inr resp, w5))))"

section \<open>Notions used to state the properties\<close>

text \<open>The envelopes among the events, in the order they were printed.\<close>

fun printed :: "event list \<Rightarrow> mcp_message list" where
  "printed [] = []"
| "printed (Printed m # es) = m # printed es"
| "printed (Logged l f as # es) = printed es"

text \<open>A sequence of \<open>build_index\<close> calls on one agent, one call for each batch.\<close>

fun build_indexes ::
  "env \<Rightarrow> retrieval_agent \<Rightarrow> chunk list list \<Rightarrow> world \<Rightarrow> retrieval_agent \<times> world" where
  "build_indexes env self [] w = (self, w)"
| "build_indexes env self (chunks # batches) w =
     (case build_index env self chunks w of
        (self1, w1) \<Rightarrow> build_indexes env self1 batches w1)"

text \<open>The vectors the agent's index holds, none before an index is built, and their
  number, the size of the index.\<close>

definition stored_vectors :: "retrieval_agent \<Rightarrow> real list list" where
  "stored_vectors self = (case index self of None \<Rightarrow> [] | Some ix \<Rightarrow> vectors ix)"

definition index_size :: "retrieval_agent \<Rightarrow> nat" where
  "index_size self = (case index self of None \<Rightarrow> 0 | Some ix \<Rightarrow> ntotal ix)"

text \<open>The order of the results as the specification words it: a hit comes before another
  when its score is higher, or the scores are equal and its ordinal is lower.\<close>

definition ranks_before :: "real \<times> int \<Rightarrow> real \<times> int \<Rightarrow> bool" where
  "ranks_before a b = (fst b < fst a \<or> (fst a = fst b \<and> snd a < snd b))"

text \<open>The hit of a stored ordinal for a query vector, all stored ordinals ranked for a
  query vector, and the retrieval result the agent builds from a hit.\<close>

definition hit_of :: "real list \<Rightarrow> real list list \<Rightarrow> nat \<Rightarrow> real \<times> int" where
  "hit_of q vs j = (inner_product q (vs ! j), int j)"

definition ranking :: "real list \<Rightarrow> real list list \<Rightarrow> (real \<times> int) list" where
  "ranking q vs = sort_key rank_key (map (hit_of q vs) [0..<length vs])"

definition result_of :: "retrieval_agent \<Rightarrow> real \<times> int \<Rightarrow> retrieval_result" where
  "result_of self h =
     \<lparr>text = texts self ! nat (snd h), meta = metadatas self ! nat (snd h), score = fst h\<rparr>"

text \<open>
  A small environment for the examples: every path is a text file that reads
  \<open>''ab  ''\<close>, except \<open>''bad.pdf''\<close>, whose parser raises; the extension is what follows
  the last dot; embeddings have 384 equal components and are taken as normalized; no
  API key is set.
\<close>

definition demo_env :: env where
  "demo_env =
     \<lparr>splitext = (\<lambda>p. (p, if p = ''bad.pdf'' then ''.pdf'' else ''.txt'')),
      basename = (\<lambda>p. p),
      parse_pdf = (\<lambda>p. Inl (Exception ''cannot open'')),
      parse_pptx = (\<lambda>p. Inr []),
      parse_docx = (\<lambda>p. Inr []),
      parse_csv = (\<lambda>p. Inr []),
      parse_txt = (\<lambda>p. Inr ''ab  ''),
      uuid4_hex = (\<lambda>n. ''0123456789abcdef''),
      encode = (\<lambda>t. replicate 384 (real (length t))),
      normalize_L2 = (\<lambda>v. v),
      GROQ_API_KEY = None,
      GROQ_API_URL = ''https://api.groq.com/v1/llm'',
      requests_post = (\<lambda>url auth prompt n. Inl (Exception ''timed out'')),
      re_search = (\<lambda>p t. None),
      str_float = (\<lambda>x. ''0.5'')\<rparr>"

text \<open>The state when the modules have been imported: the singleton agent is new, nothing
  has been printed.\<close>

definition fresh_world :: world where
  "fresh_world = \<lparr>default_agent = RetrievalAgent, events = [], uuid_draws = 0\<rparr>"

text \<open>
  Three names for what \<open>process_document\<close> computes on the way: the identifier of the
  document (the \<^verbatim>\<open>filename\<close> argument, or the base name of the path), what the \<^verbatim>\<open>try\<close>
  block gets from the parser, and the chunks the function returns for the document.
\<close>

definition document_name :: "env \<Rightarrow> string \<Rightarrow> string option \<Rightarrow> string" where
  "document_name env file_path filename0 =
     (case filename0 of None \<Rightarrow> basename env file_path | Some f \<Rightarrow> f)"

definition parse_result :: "env \<Rightarrow> string \<Rightarrow> string option \<Rightarrow> exn + string" where
  "parse_result env file_path filename0 =
     parse_by_ext env (lower (snd (splitext env (document_name env file_path filename0))))
       file_path"

definition document_chunks :: "env \<Rightarrow> string \<Rightarrow> string option \<Rightarrow> chunk list" where
  "document_chunks env file_path filename0 =
     (case fst (process_document env file_path filename0 fresh_world) of
        Inr chunks \<Rightarrow> chunks
      | Inl e \<Rightarrow> [])"

section \<open>Theorems\<close>

lemma div_add_step: "0 < (b::nat) \<Longrightarrow> (m + b) div b = Suc (m div b)"
  by simp

subsection \<open>The chunker\<close>

lemma py_range_stop: "stop \<le> i \<Longrightarrow> py_range i stop step = []"
  by (subst py_range.simps) simp

lemma py_range_next:
  "i < stop \<Longrightarrow> 0 < step \<Longrightarrow> py_range i stop step = i # py_range (i + step) stop step"
  by (subst py_range.simps) simp

lemma step_div:
  assumes "0 < step" "i < stop"
  shows "(stop - i + step - 1) div step = Suc ((stop - (i + step) + step - 1) div step)"
proof (cases "i + step \<le> stop")
  case True
  then have "stop - i + step - 1 = (stop - (i + step) + step - 1) + step" using assms by arith
  then have "(stop - i + step - 1) div step = ((stop - (i + step) + step - 1) + step) div step"
    by (rule arg_cong)
  also have "\<dots> = Suc ((stop - (i + step) + step - 1) div step)"
    using assms(1) by (rule div_add_step)
  finally show ?thesis .
next
  case False
  then have z: "stop - (i + step) = 0" by simp
  have "step * 1 \<le> stop - i + step - 1" "stop - i + step - 1 < step * Suc 1" using False assms by auto
  then have "(stop - i + step - 1) div step = 1"
    by (rule div_nat_eqI)
  moreover have "(step - 1) div step = 0" using assms by simp
  ultimately show ?thesis using z by simp
qed

lemma py_range_length:
  "0 < step \<Longrightarrow> length (py_range i stop step) = (stop - i + step - 1) div step"
proof (induction i stop step rule: py_range.induct)
  case (1 i stop step)
  show ?case
  proof (cases "stop \<le> i")
    case True
    with 1 show ?thesis by (simp add: py_range_stop)
  next
    case False
    then have ih: "length (py_range (i + step) stop step) = (stop - (i + step) + step - 1) div step"
      using 1 by simp
    have "length (py_range i stop step) = Suc (length (py_range (i + step) stop step))"
      using False 1(2) by (subst py_range.simps) simp
    also have "\<dots> = (stop - i + step - 1) div step"
      using step_div[of step i stop] False 1(2) ih by simp
    finally show ?thesis .
  qed
qed

lemma concat_slices:
  "0 < step \<Longrightarrow>
   concat (map (\<lambda>j. slice s j (j + step)) (py_range i (length s) step)) = drop i s"
proof (induction i "length s" step rule: py_range.induct)
  case (1 i step)
  show ?case
  proof (cases "length s \<le> i")
    case True
    then show ?thesis by (simp add: py_range_stop)
  next
    case False
    with 1 have ih: "concat (map (\<lambda>j. slice s j (j + step)) (py_range (i + step) (length s) step))
        = drop (i + step) s"
      by simp
    have "py_range i (length s) step = i # py_range (i + step) (length s) step"
      using False 1(2) by (subst py_range.simps) simp
    then have "concat (map (\<lambda>j. slice s j (j + step)) (py_range i (length s) step))
        = take step (drop i s) @ drop (i + step) s"
      using ih by (simp add: slice_def)
    also have "\<dots> = take step (drop i s) @ drop step (drop i s)"
      by (simp add: add.commute)
    also have "\<dots> = drop i s"
      by (rule append_take_drop_id)
    finally show ?thesis .
  qed
qed

lemma ceil_div:
  assumes "0 < s"
  shows "\<lceil>real n / real s\<rceil> = int ((n + s - 1) div s)"
proof (rule ceiling_unique)
  let ?k = "(n + s - 1) div s"
  have a: "?k * s \<le> n + s - 1" by (rule div_times_less_eq_dividend)
  have b: "n + s - 1 < s + s * ?k" using assms by (rule dividend_less_times_div)
  have "n \<le> ?k * s" using b assms by (simp add: mult.commute)
  then have "real n \<le> real (?k * s)" by (simp only: of_nat_le_iff)
  then show "real n / real s \<le> of_int (int ?k)" using assms by (simp add: field_simps)
  have "?k * s < n + s" using a assms by arith
  then have "real (?k * s) < real (n + s)" by (simp only: of_nat_less_iff)
  then show "of_int (int ?k) - 1 < real n / real s" using assms by (simp add: field_simps)
qed

lemma dropWhile_keeps: "xs \<noteq> [] \<Longrightarrow> \<not> P (hd xs) \<Longrightarrow> dropWhile P xs = xs"
  by (cases xs) auto

lemma dropWhile_all: "(\<forall>x \<in> set (dropWhile P xs). P x) \<longleftrightarrow> (\<forall>x \<in> set xs. P x)"
proof
  assume a: "\<forall>x \<in> set (dropWhile P xs). P x"
  have "dropWhile P xs = []"
  proof (rule ccontr)
    assume n: "dropWhile P xs \<noteq> []"
    then have "\<not> P (hd (dropWhile P xs))" by (rule hd_dropWhile)
    moreover have "hd (dropWhile P xs) \<in> set (dropWhile P xs)" using n by simp
    ultimately show False using a by blast
  qed
  then show "\<forall>x \<in> set xs. P x" by (simp add: dropWhile_eq_Nil_conv)
next
  assume "\<forall>x \<in> set xs. P x"
  then show "\<forall>x \<in> set (dropWhile P xs). P x" by (auto dest: set_dropWhileD)
qed

lemma strip_empty_iff: "strip T = [] \<longleftrightarrow> (\<forall>c \<in> set T. isspace c)"
  by (simp add: strip_def dropWhile_eq_Nil_conv dropWhile_all)


lemma strip_id: "T \<noteq> [] \<longrightarrow> \<not> isspace (hd T) \<and> \<not> isspace (last T) \<Longrightarrow> strip T = T"
proof (cases T)
  case Nil
  then show ?thesis by (simp add: strip_def)
next
  case (Cons a as)
  assume "T \<noteq> [] \<longrightarrow> \<not> isspace (hd T) \<and> \<not> isspace (last T)"
  with Cons have h: "\<not> isspace (hd T)" and l: "\<not> isspace (last T)" by auto
  from h Cons have "dropWhile isspace T = T" by simp
  moreover have "hd (rev T) = last T" using Cons by (simp add: hd_rev)
  then have "dropWhile isspace (rev T) = rev T"
    using l Cons by (intro dropWhile_keeps) simp_all
  ultimately show ?thesis by (simp add: strip_def)
qed

text \<open>
  Claim C2. The input is trimmed of leading and trailing white space first. For every
  text \<open>T\<close> and every size \<open>S > 0\<close>, \<open>chunk_text\<close> returns chunks whose concatenation in
  index order is the trimmed text \<open>strip T\<close>, and so \<open>T\<close> itself when \<open>T\<close> neither starts nor
  ends with white space; the number of chunks is the ceiling of \<open>len (strip T) / S\<close>,
  and it is 0 exactly when \<open>T\<close> is empty or white space only.
\<close>

theorem chunk_text_trimmed:
  assumes "0 < S"
  shows "\<exists>cs. chunk_text T S = Inr cs \<and> concat cs = strip T
           \<and> int (length cs) = \<lceil>real (length (strip T)) / real_of_int S\<rceil>
           \<and> (length cs = 0 \<longleftrightarrow> (\<forall>c \<in> set T. isspace c))
           \<and> ((T \<noteq> [] \<longrightarrow> \<not> isspace (hd T) \<and> \<not> isspace (last T)) \<longrightarrow> concat cs = T)"
proof -
  let ?t = "strip T"
  let ?cs = "map (\<lambda>i. slice ?t i (i + nat S)) (py_range 0 (length ?t) (nat S))"
  have pos: "0 < nat S" using assms by simp
  have eq: "chunk_text T S = Inr ?cs"
    using assms by (auto simp: chunk_text_def Let_def py_range_stop)
  have c: "concat ?cs = ?t" using concat_slices[OF pos, of ?t 0] by simp
  have len: "length ?cs = (length ?t + nat S - 1) div nat S"
    using py_range_length[OF pos, of 0 "length ?t"] by simp
  have r: "real_of_int S = real (nat S)" using assms by simp
  have n: "int (length ?cs) = \<lceil>real (length ?t) / real_of_int S\<rceil>"
    unfolding len r by (rule ceil_div[OF pos, symmetric])
  have z: "length ?cs = 0 \<longleftrightarrow> ?t = []"
  proof
    assume "length ?cs = 0"
    then have "concat ?cs = []" by simp
    with c show "?t = []" by simp
  next
    assume "?t = []"
    then show "length ?cs = 0" by (simp add: py_range_stop)
  qed
  have w: "length ?cs = 0 \<longleftrightarrow> (\<forall>c \<in> set T. isspace c)"
    using z strip_empty_iff[of T] by (simp only:)
  have i: "(T \<noteq> [] \<longrightarrow> \<not> isspace (hd T) \<and> \<not> isspace (last T)) \<longrightarrow> concat ?cs = T"
    using c strip_id[of T] by (simp only:) blast
  from eq c n w i show ?thesis by blast
qed

theorem chunk_text_trimmed_witness:
  "(0::int) < 2 \<and> chunk_text '' ab cde '' 2 = Inr [''ab'', '' c'', ''de'']
     \<and> strip '' ab cde '' = ''ab cde''
     \<and> (\<exists>cs. chunk_text '' ab cde '' 2 = Inr cs \<and> concat cs = ''ab cde'' \<and> int (length cs) = 3)"
proof -
  have p: "(0::int) < 2" by simp
  have s: "strip '' ab cde '' = ''ab cde''" by (simp add: strip_def isspace_def)
  have e: "chunk_text '' ab cde '' 2 = Inr [''ab'', '' c'', ''de'']"
    by (simp add: chunk_text_def s slice_def py_range_stop py_range_next Let_def)
  obtain cs where c: "chunk_text '' ab cde '' 2 = Inr cs" "concat cs = strip '' ab cde ''"
    using chunk_text_trimmed[OF p, of "'' ab cde ''"] by blast
  from c(1) e have "cs = [''ab'', '' c'', ''de'']" by simp
  then show ?thesis using p s e by simp
qed

subsection \<open>Messages and the ingestion of one document\<close>

lemma send_mcp_message_None:
  "send_mcp_message env s r t p None w =
     (\<lparr>sender = s, receiver = r, type = t,
       trace_id = ''rag'' @ ''-'' @ take 8 (uuid4_hex env (uuid_draws w)), payload = p\<rparr>,
      w\<lparr>events := events w @
           [Printed \<lparr>sender = s, receiver = r, type = t,
              trace_id = ''rag'' @ ''-'' @ take 8 (uuid4_hex env (uuid_draws w)), payload = p\<rparr>,
            Logged INFO ''MCP message: %s -> %s : %s'' [Arg_str s, Arg_str r, Arg_str t]],
         uuid_draws := Suc (uuid_draws w)\<rparr>)"
  by (simp add: send_mcp_message_def make_trace_id_def emit_def Let_def)

lemma chunk_text_default:
  "chunk_text t CHUNK_SIZE =
     Inr (map (\<lambda>i. slice (strip t) i (i + 800)) (py_range 0 (length (strip t)) 800))"
  by (simp add: chunk_text_def CHUNK_SIZE_def Let_def py_range_stop)

lemma chunk_text_empty: "chunk_text [] sz = Inr []"
  by (simp add: chunk_text_def strip_def)

lemma process_document_eq:
  assumes f: "fname = (case fo of None \<Rightarrow> basename env p | Some f \<Rightarrow> f)"
    and c: "chunk_text (case parse_by_ext env (lower (snd (splitext env fname))) p of
                           Inr t \<Rightarrow> t | Inl e \<Rightarrow> []) CHUNK_SIZE = Inr pieces"
  shows "process_document env p fo w =
     (Inr (map (\<lambda>(i, c). \<lparr>text = c, meta = \<lparr>filename = fname, chunk_index = i\<rparr>\<rparr>)
            (enumerate 0 pieces)),
      w\<lparr>events := events w
           @ (case parse_by_ext env (lower (snd (splitext env fname))) p of
                Inr t \<Rightarrow> []
              | Inl e \<Rightarrow> [Logged ERROR ''Error parsing %s: %s'' [Arg_str p, Arg_exn e]])
           @ [Printed \<lparr>sender = ''IngestionAgent'', receiver = ''RetrievalAgent'',
                type = ''DOCUMENT_PARSED'',
                trace_id = ''rag'' @ ''-'' @ take 8 (uuid4_hex env (uuid_draws w)),
                payload = Document_parsed_payload fname (length pieces)\<rparr>,
              Logged INFO ''MCP message: %s -> %s : %s''
                [Arg_str ''IngestionAgent'', Arg_str ''RetrievalAgent'', Arg_str ''DOCUMENT_PARSED''],
              Logged INFO ''IngestionAgent: parsed %s -> %d chunks''
                [Arg_str fname, Arg_nat (length pieces)]],
         uuid_draws := Suc (uuid_draws w)\<rparr>)"
proof (cases "parse_by_ext env (lower (snd (splitext env fname))) p")
  case (Inl e)
  with c have "chunk_text [] CHUNK_SIZE = Inr pieces" by simp
  with Inl f[symmetric] show ?thesis
    by (simp add: process_document_def Let_def send_mcp_message_None emit_def)
next
  case (Inr t)
  with c have "chunk_text t CHUNK_SIZE = Inr pieces" by simp
  with Inr f[symmetric] show ?thesis
    by (simp add: process_document_def Let_def send_mcp_message_None emit_def)
qed


lemma process_document_explicit:
  "\<exists>pieces errlog.
     chunk_text (case parse_result env p fo of Inr t \<Rightarrow> t | Inl e \<Rightarrow> []) CHUNK_SIZE = Inr pieces
   \<and> errlog = (case parse_result env p fo of
                Inr t \<Rightarrow> []
              | Inl e \<Rightarrow> [Logged ERROR ''Error parsing %s: %s'' [Arg_str p, Arg_exn e]])
   \<and> process_document env p fo w =
     (Inr (map (\<lambda>(i, c). \<lparr>text = c,
                 meta = \<lparr>filename = document_name env p fo, chunk_index = i\<rparr>\<rparr>)
            (enumerate 0 pieces)),
      w\<lparr>events := events w @ errlog
           @ [Printed \<lparr>sender = ''IngestionAgent'', receiver = ''RetrievalAgent'',
                type = ''DOCUMENT_PARSED'',
                trace_id = ''rag'' @ ''-'' @ take 8 (uuid4_hex env (uuid_draws w)),
                payload = Document_parsed_payload (document_name env p fo) (length pieces)\<rparr>,
              Logged INFO ''MCP message: %s -> %s : %s''
                [Arg_str ''IngestionAgent'', Arg_str ''RetrievalAgent'', Arg_str ''DOCUMENT_PARSED''],
              Logged INFO ''IngestionAgent: parsed %s -> %d chunks''
                [Arg_str (document_name env p fo), Arg_nat (length pieces)]],
         uuid_draws := Suc (uuid_draws w)\<rparr>)"
proof -
  obtain pieces where c:
    "chunk_text (case parse_result env p fo of Inr t \<Rightarrow> t | Inl e \<Rightarrow> []) CHUNK_SIZE = Inr pieces"
    by (simp add: chunk_text_default)
  have f: "document_name env p fo = (case fo of None \<Rightarrow> basename env p | Some f \<Rightarrow> f)"
    by (simp add: document_name_def)
  show ?thesis
    using c process_document_eq[OF f c[unfolded parse_result_def], of w]
    by (simp add: parse_result_def)
qed

lemma fst_process_document:
  "fst (process_document env p fo w) = Inr (document_chunks env p fo)"
proof -
  obtain pieces errlog where
    "process_document env p fo w =
     (Inr (map (\<lambda>(i, c). \<lparr>text = c,
                 meta = \<lparr>filename = document_name env p fo, chunk_index = i\<rparr>\<rparr>)
            (enumerate 0 pieces)),
      w\<lparr>events := events w @ errlog
           @ [Printed \<lparr>sender = ''IngestionAgent'', receiver = ''RetrievalAgent'',
                type = ''DOCUMENT_PARSED'',
                trace_id = ''rag'' @ ''-'' @ take 8 (uuid4_hex env (uuid_draws w)),
                payload = Document_parsed_payload (document_name env p fo) (length pieces)\<rparr>,
              Logged INFO ''MCP message: %s -> %s : %s''
                [Arg_str ''IngestionAgent'', Arg_str ''RetrievalAgent'', Arg_str ''DOCUMENT_PARSED''],
              Logged INFO ''IngestionAgent: parsed %s -> %d chunks''
                [Arg_str (document_name env p fo), Arg_nat (length pieces)]],
         uuid_draws := Suc (uuid_draws w)\<rparr>)"
    and "chunk_text (case parse_result env p fo of Inr t \<Rightarrow> t | Inl e \<Rightarrow> []) CHUNK_SIZE = Inr pieces"
    using process_document_explicit[of env p fo w] by blast
  moreover obtain pieces' errlog' where
    "process_document env p fo fresh_world =
     (Inr (map (\<lambda>(i, c). \<lparr>text = c,
                 meta = \<lparr>filename = document_name env p fo, chunk_index = i\<rparr>\<rparr>)
            (enumerate 0 pieces')),
      fresh_world\<lparr>events := events fresh_world @ errlog'
           @ [Printed \<lparr>sender = ''IngestionAgent'', receiver = ''RetrievalAgent'',
                type = ''DOCUMENT_PARSED'',
                trace_id = ''rag'' @ ''-'' @ take 8 (uuid4_hex env (uuid_draws fresh_world)),
                payload = Document_parsed_payload (document_name env p fo) (length pieces')\<rparr>,
              Logged INFO ''MCP message: %s -> %s : %s''
                [Arg_str ''IngestionAgent'', Arg_str ''RetrievalAgent'', Arg_str ''DOCUMENT_PARSED''],
              Logged INFO ''IngestionAgent: parsed %s -> %d chunks''
                [Arg_str (document_name env p fo), Arg_nat (length pieces')]],
         uuid_draws := Suc (uuid_draws fresh_world)\<rparr>)"
    and "chunk_text (case parse_result env p fo of Inr t \<Rightarrow> t | Inl e \<Rightarrow> []) CHUNK_SIZE = Inr pieces'"
    using process_document_explicit[of env p fo fresh_world] by blast
  ultimately show ?thesis by (simp add: document_chunks_def)
qed


lemma document_chunks_explicit:
  "\<exists>pieces.
     chunk_text (case parse_result env p fo of Inr t \<Rightarrow> t | Inl e \<Rightarrow> []) CHUNK_SIZE = Inr pieces
   \<and> document_chunks env p fo =
       map (\<lambda>(i, c). \<lparr>text = c, meta = \<lparr>filename = document_name env p fo, chunk_index = i\<rparr>\<rparr>)
         (enumerate 0 pieces)"
proof -
  obtain pieces errlog where
    a: "chunk_text (case parse_result env p fo of Inr t \<Rightarrow> t | Inl e \<Rightarrow> []) CHUNK_SIZE = Inr pieces"
    and "fst (process_document env p fo fresh_world) =
      Inr (map (\<lambda>(i, c). \<lparr>text = c,
                 meta = \<lparr>filename = document_name env p fo, chunk_index = i\<rparr>\<rparr>)
            (enumerate 0 pieces))"
    using process_document_explicit[of env p fo fresh_world] by fastforce
  then have "document_chunks env p fo =
      map (\<lambda>(i, c). \<lparr>text = c, meta = \<lparr>filename = document_name env p fo, chunk_index = i\<rparr>\<rparr>)
        (enumerate 0 pieces)"
    by (simp add: document_chunks_def)
  with a show ?thesis by blast
qed

lemma document_chunks_failed:
  assumes "parse_result env p fo = Inl e"
  shows "document_chunks env p fo = []"
proof -
  obtain pieces where
    a: "chunk_text (case parse_result env p fo of Inr t \<Rightarrow> t | Inl e \<Rightarrow> []) CHUNK_SIZE = Inr pieces"
    and b: "document_chunks env p fo =
       map (\<lambda>(i, c). \<lparr>text = c, meta = \<lparr>filename = document_name env p fo, chunk_index = i\<rparr>\<rparr>)
         (enumerate 0 pieces)"
    using document_chunks_explicit[of env p fo] by blast
  from a assms have "pieces = []" by (simp add: chunk_text_empty)
  with b show ?thesis by simp
qed

lemma document_chunks_nth:
  assumes "i < length (document_chunks env p fo)"
  shows "chunk_index (meta (document_chunks env p fo ! i)) = i"
    and "filename (meta (document_chunks env p fo ! i)) = document_name env p fo"
proof -
  obtain pieces where
    b: "document_chunks env p fo =
       map (\<lambda>(i, c). \<lparr>text = c, meta = \<lparr>filename = document_name env p fo, chunk_index = i\<rparr>\<rparr>)
         (enumerate 0 pieces)"
    using document_chunks_explicit[of env p fo] by blast
  with assms have l: "i < length pieces" by simp
  then have "enumerate 0 pieces ! i = (i, pieces ! i)" by (simp add: nth_enumerate_eq)
  with b l show "chunk_index (meta (document_chunks env p fo ! i)) = i"
    and "filename (meta (document_chunks env p fo ! i)) = document_name env p fo"
    by simp_all
qed

lemma process_document_events:
  "\<exists>log. events (snd (process_document env p fo w)) = events w @ log
     \<and> (\<forall>e. parse_result env p fo = Inl e \<longrightarrow>
            Logged ERROR ''Error parsing %s: %s'' [Arg_str p, Arg_exn e] \<in> set log)"
proof -
  obtain pieces errlog where
    e: "errlog = (case parse_result env p fo of
                Inr t \<Rightarrow> []
              | Inl e \<Rightarrow> [Logged ERROR ''Error parsing %s: %s'' [Arg_str p, Arg_exn e]])"
    and "process_document env p fo w =
     (Inr (map (\<lambda>(i, c). \<lparr>text = c,
                 meta = \<lparr>filename = document_name env p fo, chunk_index = i\<rparr>\<rparr>)
            (enumerate 0 pieces)),
      w\<lparr>events := events w @ errlog
           @ [Printed \<lparr>sender = ''IngestionAgent'', receiver = ''RetrievalAgent'',
                type = ''DOCUMENT_PARSED'',
                trace_id = ''rag'' @ ''-'' @ take 8 (uuid4_hex env (uuid_draws w)),
                payload = Document_parsed_payload (document_name env p fo) (length pieces)\<rparr>,
              Logged INFO ''MCP message: %s -> %s : %s''
                [Arg_str ''IngestionAgent'', Arg_str ''RetrievalAgent'', Arg_str ''DOCUMENT_PARSED''],
              Logged INFO ''IngestionAgent: parsed %s -> %d chunks''
                [Arg_str (document_name env p fo), Arg_nat (length pieces)]],
         uuid_draws := Suc (uuid_draws w)\<rparr>)"
    using process_document_explicit[of env p fo w] by blast
  then have "events (snd (process_document env p fo w)) = events w @ (errlog
           @ [Printed \<lparr>sender = ''IngestionAgent'', receiver = ''RetrievalAgent'',
                type = ''DOCUMENT_PARSED'',
                trace_id = ''rag'' @ ''-'' @ take 8 (uuid4_hex env (uuid_draws w)),
                payload = Document_parsed_payload (document_name env p fo) (length pieces)\<rparr>,
              Logged INFO ''MCP message: %s -> %s : %s''
                [Arg_str ''IngestionAgent'', Arg_str ''RetrievalAgent'', Arg_str ''DOCUMENT_PARSED''],
              Logged INFO ''IngestionAgent: parsed %s -> %d chunks''
                [Arg_str (document_name env p fo), Arg_nat (length pieces)]])"
    by simp
  moreover have "\<forall>e. parse_result env p fo = Inl e \<longrightarrow>
            Logged ERROR ''Error parsing %s: %s'' [Arg_str p, Arg_exn e] \<in> set errlog"
    using e by simp
  ultimately show ?thesis by (metis Un_iff set_append)
qed

lemma process_document_agent:
  "default_agent (snd (process_document env p fo w)) = default_agent w"
proof -
  obtain cs w' where "process_document env p fo w = (Inr cs, w')"
    and "default_agent w' = default_agent w"
    using process_document_explicit[of env p fo w] by fastforce
  then show ?thesis by simp
qed

lemma ingest_loop_fst:
  "fst (ingest_loop env ps acc w) =
     Inr (acc @ concat (map (\<lambda>p. document_chunks env p (Some p)) ps))"
proof (induction ps arbitrary: acc w)
  case Nil
  show ?case by simp
next
  case (Cons p ps)
  obtain w1 where "process_document env p (Some p) w = (Inr (document_chunks env p (Some p)), w1)"
    using fst_process_document[of env p "Some p" w]
    by (cases "process_document env p (Some p) w") simp
  then show ?case using Cons.IH by simp
qed

lemma ingest_loop_events:
  "\<exists>log. events (snd (ingest_loop env ps acc w)) = events w @ log"
proof (induction ps arbitrary: acc w)
  case Nil
  show ?case by simp
next
  case (Cons p ps)
  obtain w1 where pd: "process_document env p (Some p) w = (Inr (document_chunks env p (Some p)), w1)"
    using fst_process_document[of env p "Some p" w]
    by (cases "process_document env p (Some p) w") simp
  obtain l1 where "events w1 = events w @ l1"
    using process_document_events[of env p "Some p" w] pd by auto
  moreover obtain l2 where
    "events (snd (ingest_loop env ps (acc @ document_chunks env p (Some p)) w1)) = events w1 @ l2"
    using Cons.IH by blast
  ultimately show ?case using pd by simp
qed

lemma ingest_loop_agent:
  "default_agent (snd (ingest_loop env ps acc w)) = default_agent w"
proof (induction ps arbitrary: acc w)
  case Nil
  show ?case by simp
next
  case (Cons p ps)
  obtain w1 where pd: "process_document env p (Some p) w = (Inr (document_chunks env p (Some p)), w1)"
    using fst_process_document[of env p "Some p" w]
    by (cases "process_document env p (Some p) w") simp
  then have "default_agent w1 = default_agent w"
    using process_document_agent[of env p "Some p" w] by simp
  then show ?case using pd Cons.IH by simp
qed

lemma ingest_loop_logs_failure:
  assumes "p \<in> set ps" and "parse_result env p (Some p) = Inl e"
  shows "Logged ERROR ''Error parsing %s: %s'' [Arg_str p, Arg_exn e]
           \<in> set (events (snd (ingest_loop env ps acc w)))"
  using assms(1)
proof (induction ps arbitrary: acc w)
  case Nil
  then show ?case by simp
next
  case (Cons q ps)
  obtain w1 where pd: "process_document env q (Some q) w = (Inr (document_chunks env q (Some q)), w1)"
    using fst_process_document[of env q "Some q" w]
    by (cases "process_document env q (Some q) w") simp
  show ?case
  proof (cases "p = q")
    case True
    then have "Logged ERROR ''Error parsing %s: %s'' [Arg_str p, Arg_exn e] \<in> set (events w1)"
      using process_document_events[of env q "Some q" w] pd assms(2) by auto
    moreover obtain l2 where
      "events (snd (ingest_loop env ps (acc @ document_chunks env q (Some q)) w1)) = events w1 @ l2"
      using ingest_loop_events by blast
    ultimately show ?thesis using pd by simp
  next
    case False
    with Cons.prems have "p \<in> set ps" by simp
    then show ?thesis using Cons.IH pd by simp
  qed
qed

subsection \<open>Ingestion: claims C10, C9 and C6\<close>

text \<open>
  Claim C10. For every file path, \<open>process_document\<close> returns a chunk list and, among
  the events it adds, prints exactly one envelope: \<^verbatim>\<open>DOCUMENT_PARSED\<close> from the ingestion
  agent to the retrieval agent, whose payload holds the file name and the number of
  chunks returned. When the parser raises, the envelope is still printed, the chunk list
  is empty and the count in the payload is 0.
\<close>

theorem process_document_emits_document_parsed:
  "\<exists>chunks w' log.
     process_document env p fo w = (Inr chunks, w')
   \<and> events w' = events w @ log
   \<and> printed log =
        [\<lparr>sender = ''IngestionAgent'', receiver = ''RetrievalAgent'', type = ''DOCUMENT_PARSED'',
          trace_id = ''rag'' @ ''-'' @ take 8 (uuid4_hex env (uuid_draws w)),
          payload = Document_parsed_payload (document_name env p fo) (length chunks)\<rparr>]
   \<and> (\<forall>e. parse_result env p fo = Inl e \<longrightarrow> chunks = [])"
proof -
  obtain pieces errlog where
    c: "chunk_text (case parse_result env p fo of Inr t \<Rightarrow> t | Inl e \<Rightarrow> []) CHUNK_SIZE = Inr pieces"
    and e: "errlog = (case parse_result env p fo of
                Inr t \<Rightarrow> []
              | Inl e \<Rightarrow> [Logged ERROR ''Error parsing %s: %s'' [Arg_str p, Arg_exn e]])"
    and pd: "process_document env p fo w =
     (Inr (map (\<lambda>(i, c). \<lparr>text = c,
                 meta = \<lparr>filename = document_name env p fo, chunk_index = i\<rparr>\<rparr>)
            (enumerate 0 pieces)),
      w\<lparr>events := events w @ errlog
           @ [Printed \<lparr>sender = ''IngestionAgent'', receiver = ''RetrievalAgent'',
                type = ''DOCUMENT_PARSED'',
                trace_id = ''rag'' @ ''-'' @ take 8 (uuid4_hex env (uuid_draws w)),
                payload = Document_parsed_payload (document_name env p fo) (length pieces)\<rparr>,
              Logged INFO ''MCP message: %s -> %s : %s''
                [Arg_str ''IngestionAgent'', Arg_str ''RetrievalAgent'', Arg_str ''DOCUMENT_PARSED''],
              Logged INFO ''IngestionAgent: parsed %s -> %d chunks''
                [Arg_str (document_name env p fo), Arg_nat (length pieces)]],
         uuid_draws := Suc (uuid_draws w)\<rparr>)"
    using process_document_explicit[of env p fo w] by blast
  let ?chunks = "map (\<lambda>(i, c). \<lparr>text = c,
                 meta = \<lparr>filename = document_name env p fo, chunk_index = i\<rparr>\<rparr>)
            (enumerate 0 pieces)"
  let ?m = "\<lparr>sender = ''IngestionAgent'', receiver = ''RetrievalAgent'',
                type = ''DOCUMENT_PARSED'',
                trace_id = ''rag'' @ ''-'' @ take 8 (uuid4_hex env (uuid_draws w)),
                payload = Document_parsed_payload (document_name env p fo) (length ?chunks)\<rparr>"
  let ?log = "errlog @ [Printed ?m,
              Logged INFO ''MCP message: %s -> %s : %s''
                [Arg_str ''IngestionAgent'', Arg_str ''RetrievalAgent'', Arg_str ''DOCUMENT_PARSED''],
              Logged INFO ''IngestionAgent: parsed %s -> %d chunks''
                [Arg_str (document_name env p fo), Arg_nat (length pieces)]]"
  have "printed errlog = []" using e by (cases "parse_result env p fo") simp_all
  then have pr: "printed ?log = [?m]"
    by (cases errlog rule: printed.cases) (simp_all add: e split: sum.splits)
  have ev: "events (snd (process_document env p fo w)) = events w @ ?log"
    using pd by simp
  have f: "\<forall>e. parse_result env p fo = Inl e \<longrightarrow> ?chunks = []"
    using c by (auto simp: chunk_text_empty)
  have "process_document env p fo w = (Inr ?chunks, snd (process_document env p fo w))"
    using pd by simp
  with ev pr f show ?thesis by blast
qed


lemma demo_parse_bad:
  "fo = None \<or> fo = Some ''bad.pdf'' \<Longrightarrow>
   parse_result demo_env ''bad.pdf'' fo = Inl (Exception ''cannot open'')"
  by (auto simp: parse_result_def document_name_def demo_env_def parse_by_ext_def lower_def
      lower_char_def)

theorem process_document_emits_document_parsed_witness:
  "parse_result demo_env ''bad.pdf'' None = Inl (Exception ''cannot open'')
   \<and> fst (process_document demo_env ''bad.pdf'' None fresh_world) = Inr []"
proof -
  have a: "parse_result demo_env ''bad.pdf'' None = Inl (Exception ''cannot open'')"
    by (simp add: demo_parse_bad)
  obtain chunks w' where "process_document demo_env ''bad.pdf'' None fresh_world = (Inr chunks, w')"
    and "\<forall>e. parse_result demo_env ''bad.pdf'' None = Inl e \<longrightarrow> chunks = []"
    using process_document_emits_document_parsed[of demo_env "''bad.pdf''" None fresh_world]
    by blast
  with a show ?thesis by simp
qed

lemma map_enumerate_nth:
  "map (\<lambda>(i, c). f i c) (enumerate 0 xs) = map (\<lambda>i. f i (xs ! i)) [0..<length xs]"
  by (rule nth_equalityI) (simp_all add: nth_enumerate_eq)

lemma process_document_wraps_pieces:
  "\<exists>pieces w'.
     chunk_text (case parse_result env p fo of Inr t \<Rightarrow> t | Inl e \<Rightarrow> []) CHUNK_SIZE = Inr pieces
   \<and> process_document env p fo w =
       (Inr (map (\<lambda>i. \<lparr>text = pieces ! i,
                    meta = \<lparr>filename = document_name env p fo, chunk_index = i\<rparr>\<rparr>)
              [0..<length pieces]), w')
   \<and> document_chunks env p fo =
       map (\<lambda>i. \<lparr>text = pieces ! i,
                    meta = \<lparr>filename = document_name env p fo, chunk_index = i\<rparr>\<rparr>)
         [0..<length pieces]"
proof -
  obtain pieces where
    c: "chunk_text (case parse_result env p fo of Inr t \<Rightarrow> t | Inl e \<Rightarrow> []) CHUNK_SIZE = Inr pieces"
    and dc: "document_chunks env p fo =
       map (\<lambda>(i, c). \<lparr>text = c, meta = \<lparr>filename = document_name env p fo, chunk_index = i\<rparr>\<rparr>)
         (enumerate 0 pieces)"
    using document_chunks_explicit[of env p fo] by blast
  have dc': "document_chunks env p fo =
       map (\<lambda>i. \<lparr>text = pieces ! i,
                    meta = \<lparr>filename = document_name env p fo, chunk_index = i\<rparr>\<rparr>)
         [0..<length pieces]"
    unfolding dc by (rule map_enumerate_nth)
  have "process_document env p fo w =
      (Inr (document_chunks env p fo), snd (process_document env p fo w))"
    using fst_process_document[of env p fo w] by (simp add: prod_eq_iff)
  then have pd: "process_document env p fo w =
       (Inr (map (\<lambda>i. \<lparr>text = pieces ! i,
                    meta = \<lparr>filename = document_name env p fo, chunk_index = i\<rparr>\<rparr>)
              [0..<length pieces]), snd (process_document env p fo w))"
    by (simp only: dc')
  from c pd dc' show ?thesis by blast
qed

text \<open>
  Claim C9. \<open>process_document\<close> wraps the strings the chunker returns for the document's
  text, one chunk for each string and in the chunker's order: the chunk at position \<open>i\<close>
  has the \<open>i\<close>-th string as its text, \<open>i\<close> as its \<open>chunk_index\<close> and the identifier of the
  document as its \<open>filename\<close>. The coordinator's loop passes the path itself as that
  identifier and accumulates the chunks of the documents in the order of the paths.
\<close>

theorem chunks_carry_position_and_source:
  "(\<exists>pieces w'.
      chunk_text (case parse_result env p fo of Inr t \<Rightarrow> t | Inl e \<Rightarrow> []) CHUNK_SIZE = Inr pieces
    \<and> process_document env p fo w =
        (Inr (map (\<lambda>i. \<lparr>text = pieces ! i,
                     meta = \<lparr>filename = document_name env p fo, chunk_index = i\<rparr>\<rparr>)
               [0..<length pieces]), w'))
   \<and> (\<exists>docs.
        fst (ingest_loop env ps [] w) = Inr (concat docs)
      \<and> length docs = length ps
      \<and> (\<forall>n < length ps. \<exists>pieces.
            chunk_text (case parse_result env (ps ! n) (Some (ps ! n)) of
                          Inr t \<Rightarrow> t | Inl e \<Rightarrow> []) CHUNK_SIZE = Inr pieces
          \<and> docs ! n =
              map (\<lambda>i. \<lparr>text = pieces ! i,
                          meta = \<lparr>filename = ps ! n, chunk_index = i\<rparr>\<rparr>)
                [0..<length pieces]))"
proof
  show "\<exists>pieces w'.
      chunk_text (case parse_result env p fo of Inr t \<Rightarrow> t | Inl e \<Rightarrow> []) CHUNK_SIZE = Inr pieces
    \<and> process_document env p fo w =
        (Inr (map (\<lambda>i. \<lparr>text = pieces ! i,
                     meta = \<lparr>filename = document_name env p fo, chunk_index = i\<rparr>\<rparr>)
               [0..<length pieces]), w')"
    using process_document_wraps_pieces[of env p fo w] by blast
next
  let ?docs = "map (\<lambda>q. document_chunks env q (Some q)) ps"
  have a: "fst (ingest_loop env ps [] w) = Inr (concat ?docs)"
    using ingest_loop_fst[of env ps "[]" w] by simp
  have b: "length ?docs = length ps" by simp
  have c: "\<forall>n < length ps. \<exists>pieces.
            chunk_text (case parse_result env (ps ! n) (Some (ps ! n)) of
                          Inr t \<Rightarrow> t | Inl e \<Rightarrow> []) CHUNK_SIZE = Inr pieces
          \<and> ?docs ! n =
              map (\<lambda>i. \<lparr>text = pieces ! i,
                          meta = \<lparr>filename = ps ! n, chunk_index = i\<rparr>\<rparr>)
                [0..<length pieces]"
  proof (intro allI impI)
    fix n assume n: "n < length ps"
    have dn: "document_name env (ps ! n) (Some (ps ! n)) = ps ! n"
      by (simp add: document_name_def)
    have dd: "?docs ! n = document_chunks env (ps ! n) (Some (ps ! n))"
      using n by simp
    obtain pieces where
      "chunk_text (case parse_result env (ps ! n) (Some (ps ! n)) of
                          Inr t \<Rightarrow> t | Inl e \<Rightarrow> []) CHUNK_SIZE = Inr pieces"
      and "document_chunks env (ps ! n) (Some (ps ! n)) =
         map (\<lambda>i. \<lparr>text = pieces ! i,
                    meta = \<lparr>filename = document_name env (ps ! n) (Some (ps ! n)),
                            chunk_index = i\<rparr>\<rparr>)
           [0..<length pieces]"
      using process_document_wraps_pieces[of env "ps ! n" "Some (ps ! n)" w] by blast
    then show "\<exists>pieces.
            chunk_text (case parse_result env (ps ! n) (Some (ps ! n)) of
                          Inr t \<Rightarrow> t | Inl e \<Rightarrow> []) CHUNK_SIZE = Inr pieces
          \<and> ?docs ! n =
              map (\<lambda>i. \<lparr>text = pieces ! i,
                          meta = \<lparr>filename = ps ! n, chunk_index = i\<rparr>\<rparr>)
                [0..<length pieces]"
      unfolding dn dd by blast
  qed
  from a b c show "\<exists>docs.
        fst (ingest_loop env ps [] w) = Inr (concat docs)
      \<and> length docs = length ps
      \<and> (\<forall>n < length ps. \<exists>pieces.
            chunk_text (case parse_result env (ps ! n) (Some (ps ! n)) of
                          Inr t \<Rightarrow> t | Inl e \<Rightarrow> []) CHUNK_SIZE = Inr pieces
          \<and> docs ! n =
              map (\<lambda>i. \<lparr>text = pieces ! i,
                          meta = \<lparr>filename = ps ! n, chunk_index = i\<rparr>\<rparr>)
                [0..<length pieces])"
    by blast
qed

lemma demo_txt_chunks:
  "document_chunks demo_env ''a.txt'' (Some ''a.txt'')
     = [\<lparr>text = ''ab'', meta = \<lparr>filename = ''a.txt'', chunk_index = 0\<rparr>\<rparr>]"
proof -
  have "parse_result demo_env ''a.txt'' (Some ''a.txt'') = Inr ''ab  ''"
    by (simp add: parse_result_def document_name_def demo_env_def parse_by_ext_def lower_def
      lower_char_def)
  moreover have "chunk_text ''ab  '' CHUNK_SIZE = Inr [''ab'']"
    by (simp add: chunk_text_def CHUNK_SIZE_def strip_def isspace_def slice_def
        py_range_stop py_range_next Let_def)
  ultimately show ?thesis
    using document_chunks_explicit[of demo_env "''a.txt''" "Some ''a.txt''"]
    by (auto simp: document_name_def enumerate_simps)
qed

lemma long_text_pieces:
  "chunk_text (replicate 1700 (CHR ''x'')) CHUNK_SIZE
     = Inr [replicate 800 (CHR ''x''), replicate 800 (CHR ''x''), replicate 100 (CHR ''x'')]"
proof -
  have n: "\<not> isspace (CHR ''x'')" by (simp add: isspace_def)
  have s: "strip (replicate 1700 (CHR ''x'')) = replicate 1700 (CHR ''x'')"
    using n by (simp add: strip_def)
  have r: "py_range 0 1700 800 = [0, 800, 1600]"
    by (simp add: py_range_next py_range_stop)
  show ?thesis
    by (simp add: chunk_text_default s r slice_def)
qed

lemma long_parse:
  "parse_result (demo_env\<lparr>parse_txt := \<lambda>p. Inr (replicate 1700 (CHR ''x''))\<rparr>)
     ''long.txt'' (Some ''long.txt'')
     = Inr (replicate 1700 (CHR ''x''))"
  by (simp add: parse_result_def document_name_def demo_env_def parse_by_ext_def lower_def
      lower_char_def)

theorem chunks_carry_position_and_source_witness:
  "(0::nat) < length [''long.txt'']
   \<and> fst (process_document (demo_env\<lparr>parse_txt := \<lambda>p. Inr (replicate 1700 (CHR ''x''))\<rparr>)
          ''long.txt'' (Some ''long.txt'') fresh_world)
      = Inr [\<lparr>text = replicate 800 (CHR ''x''),
               meta = \<lparr>filename = ''long.txt'', chunk_index = 0\<rparr>\<rparr>,
             \<lparr>text = replicate 800 (CHR ''x''),
               meta = \<lparr>filename = ''long.txt'', chunk_index = 1\<rparr>\<rparr>,
             \<lparr>text = replicate 100 (CHR ''x''),
               meta = \<lparr>filename = ''long.txt'', chunk_index = 2\<rparr>\<rparr>]
   \<and> fst (ingest_loop (demo_env\<lparr>parse_txt := \<lambda>p. Inr (replicate 1700 (CHR ''x''))\<rparr>)
          [''long.txt''] [] fresh_world)
      = Inr [\<lparr>text = replicate 800 (CHR ''x''),
               meta = \<lparr>filename = ''long.txt'', chunk_index = 0\<rparr>\<rparr>,
             \<lparr>text = replicate 800 (CHR ''x''),
               meta = \<lparr>filename = ''long.txt'', chunk_index = 1\<rparr>\<rparr>,
             \<lparr>text = replicate 100 (CHR ''x''),
               meta = \<lparr>filename = ''long.txt'', chunk_index = 2\<rparr>\<rparr>]"
proof -
  let ?e = "demo_env\<lparr>parse_txt := \<lambda>p. Inr (replicate 1700 (CHR ''x''))\<rparr>"
  let ?three = "[replicate 800 (CHR ''x''), replicate 800 (CHR ''x''), replicate 100 (CHR ''x'')]"
  note t = chunks_carry_position_and_source[of ?e "''long.txt''" "Some ''long.txt''"
      fresh_world "[''long.txt'']"]
  have u: "[0..<length ?three] = [0, 1, 2]" by (simp add: upt_rec)
  from t obtain pieces w' where
    c: "chunk_text (case parse_result ?e ''long.txt'' (Some ''long.txt'') of
                      Inr t \<Rightarrow> t | Inl e \<Rightarrow> []) CHUNK_SIZE = Inr pieces"
    and pd: "process_document ?e ''long.txt'' (Some ''long.txt'') fresh_world =
        (Inr (map (\<lambda>i. \<lparr>text = pieces ! i,
                     meta = \<lparr>filename = document_name ?e ''long.txt'' (Some ''long.txt''),
                             chunk_index = i\<rparr>\<rparr>)
               [0..<length pieces]), w')"
    by blast
  from c have p: "pieces = ?three" by (simp add: long_parse long_text_pieces)
  have 1: "fst (process_document ?e ''long.txt'' (Some ''long.txt'') fresh_world)
      = Inr [\<lparr>text = replicate 800 (CHR ''x''),
               meta = \<lparr>filename = ''long.txt'', chunk_index = 0\<rparr>\<rparr>,
             \<lparr>text = replicate 800 (CHR ''x''),
               meta = \<lparr>filename = ''long.txt'', chunk_index = 1\<rparr>\<rparr>,
             \<lparr>text = replicate 100 (CHR ''x''),
               meta = \<lparr>filename = ''long.txt'', chunk_index = 2\<rparr>\<rparr>]"
    unfolding pd p u by (simp add: document_name_def)
  from t obtain docs where
    a: "fst (ingest_loop ?e [''long.txt''] [] fresh_world) = Inr (concat docs)"
    and l: "length docs = length [''long.txt'']"
    and d: "\<forall>n < length [''long.txt'']. \<exists>pieces.
            chunk_text (case parse_result ?e ([''long.txt''] ! n) (Some ([''long.txt''] ! n)) of
                          Inr t \<Rightarrow> t | Inl e \<Rightarrow> []) CHUNK_SIZE = Inr pieces
          \<and> docs ! n =
              map (\<lambda>i. \<lparr>text = pieces ! i,
                          meta = \<lparr>filename = [''long.txt''] ! n, chunk_index = i\<rparr>\<rparr>)
                [0..<length pieces]"
    by blast
  have z: "(0::nat) < length [''long.txt'']" by simp
  from d z obtain pieces2 where
    c2: "chunk_text (case parse_result ?e ([''long.txt''] ! 0) (Some ([''long.txt''] ! 0)) of
                          Inr t \<Rightarrow> t | Inl e \<Rightarrow> []) CHUNK_SIZE = Inr pieces2"
    and d2: "docs ! 0 =
              map (\<lambda>i. \<lparr>text = pieces2 ! i,
                          meta = \<lparr>filename = [''long.txt''] ! 0, chunk_index = i\<rparr>\<rparr>)
                [0..<length pieces2]"
    by blast
  from c2 have p2: "pieces2 = ?three" by (simp add: long_parse long_text_pieces)
  from l obtain x where dx: "docs = [x]" by (cases docs) auto
  have "x = [\<lparr>text = replicate 800 (CHR ''x''),
               meta = \<lparr>filename = ''long.txt'', chunk_index = 0\<rparr>\<rparr>,
             \<lparr>text = replicate 800 (CHR ''x''),
               meta = \<lparr>filename = ''long.txt'', chunk_index = 1\<rparr>\<rparr>,
             \<lparr>text = replicate 100 (CHR ''x''),
               meta = \<lparr>filename = ''long.txt'', chunk_index = 2\<rparr>\<rparr>]"
    using d2 unfolding dx p2 u by (simp)
  with a dx have 2: "fst (ingest_loop ?e [''long.txt''] [] fresh_world)
      = Inr [\<lparr>text = replicate 800 (CHR ''x''),
               meta = \<lparr>filename = ''long.txt'', chunk_index = 0\<rparr>\<rparr>,
             \<lparr>text = replicate 800 (CHR ''x''),
               meta = \<lparr>filename = ''long.txt'', chunk_index = 1\<rparr>\<rparr>,
             \<lparr>text = replicate 100 (CHR ''x''),
               meta = \<lparr>filename = ''long.txt'', chunk_index = 2\<rparr>\<rparr>]"
    by (simp)
  from z 1 2 show ?thesis by blast
qed

text \<open>
  Claim C6. The coordinator's loop over a batch never fails: it returns the chunks of
  every file in order, each file's chunks being what \<open>process_document\<close> gives for that
  file alone. A file whose parser raises contributes no chunks, and the run's log holds
  the record of the exception.
\<close>

theorem parse_failure_is_tolerated:
  "fst (ingest_loop env ps [] w) = Inr (concat (map (\<lambda>q. document_chunks env q (Some q)) ps))
   \<and> (\<forall>p \<in> set ps. \<forall>e. parse_result env p (Some p) = Inl e \<longrightarrow>
         document_chunks env p (Some p) = []
       \<and> Logged ERROR ''Error parsing %s: %s'' [Arg_str p, Arg_exn e]
           \<in> set (events (snd (ingest_loop env ps [] w))))"
  using ingest_loop_fst[of env ps "[]" w] ingest_loop_logs_failure[of _ ps env _ "[]" w]
    document_chunks_failed[of env _ "Some _"]
  by auto

theorem parse_failure_is_tolerated_witness:
  "''bad.pdf'' \<in> set [''bad.pdf'', ''a.txt'']
   \<and> parse_result demo_env ''bad.pdf'' (Some ''bad.pdf'') = Inl (Exception ''cannot open'')
   \<and> fst (ingest_loop demo_env [''bad.pdf'', ''a.txt''] [] fresh_world)
       = Inr [\<lparr>text = ''ab'', meta = \<lparr>filename = ''a.txt'', chunk_index = 0\<rparr>\<rparr>]
   \<and> Logged ERROR ''Error parsing %s: %s'' [Arg_str ''bad.pdf'', Arg_exn (Exception ''cannot open'')]
        \<in> set (events (snd (ingest_loop demo_env [''bad.pdf'', ''a.txt''] [] fresh_world)))"
proof -
  have m: "''bad.pdf'' \<in> set [''bad.pdf'', ''a.txt'']" by simp
  have a: "parse_result demo_env ''bad.pdf'' (Some ''bad.pdf'') = Inl (Exception ''cannot open'')"
    by (simp add: demo_parse_bad)
  note t = parse_failure_is_tolerated[of demo_env "[''bad.pdf'', ''a.txt'']" fresh_world]
  from t m a have b: "document_chunks demo_env ''bad.pdf'' (Some ''bad.pdf'') = []"
    and l: "Logged ERROR ''Error parsing %s: %s'' [Arg_str ''bad.pdf'', Arg_exn (Exception ''cannot open'')]
        \<in> set (events (snd (ingest_loop demo_env [''bad.pdf'', ''a.txt''] [] fresh_world)))"
    by blast+
  from t have "fst (ingest_loop demo_env [''bad.pdf'', ''a.txt''] [] fresh_world)
       = Inr (concat (map (\<lambda>q. document_chunks demo_env q (Some q)) [''bad.pdf'', ''a.txt'']))"
    by blast
  then have "fst (ingest_loop demo_env [''bad.pdf'', ''a.txt''] [] fresh_world)
       = Inr [\<lparr>text = ''ab'', meta = \<lparr>filename = ''a.txt'', chunk_index = 0\<rparr>\<rparr>]"
    using b demo_txt_chunks by simp
  with m a l show ?thesis by blast
qed

subsection \<open>The answer stage: claim C8\<close>

lemma call_llm_failed:
  assumes "GROQ_API_KEY env = Some key" "key \<noteq> []"
    and "requests_post env (GROQ_API_URL env) (''Bearer '' @ key) prompt n = Inl e"
  shows "fst (call_llm env prompt rs n w) = (JStr (''[LLM error] '' @ exn_str e), None)"
  using assms by (simp add: call_llm_def llm_failed_def)

lemma call_llm_no_context:
  assumes "GROQ_API_KEY env = None \<or> GROQ_API_KEY env = Some []"
  shows "fst (call_llm env prompt [] n w) = (JStr ''(Stub Answer) No relevant context found.'', None)"
  using assms by (auto simp: call_llm_def Let_def)

lemma answer_query_explicit:
  "answer_query env q rs w =
     (\<lparr>answer = fst (fst (call_llm env (format_prompt env q rs) rs 512
          (emit (Logged INFO ''LLMResponseAgent: sending prompt (len=%d chars)''
                      [Arg_nat (length (format_prompt env q rs))]) w))),
       retrieved = rs\<rparr>,
      snd (send_mcp_message env ''LLMResponseAgent'' ''UI'' ''FINAL_RESPONSE''
        (Final_response_payload q
          (fst (fst (call_llm env (format_prompt env q rs) rs 512
          (emit (Logged INFO ''LLMResponseAgent: sending prompt (len=%d chars)''
                      [Arg_nat (length (format_prompt env q rs))]) w))))
          rs
          (snd (fst (call_llm env (format_prompt env q rs) rs 512
          (emit (Logged INFO ''LLMResponseAgent: sending prompt (len=%d chars)''
                      [Arg_nat (length (format_prompt env q rs))]) w)))))
        None
        (snd (call_llm env (format_prompt env q rs) rs 512
          (emit (Logged INFO ''LLMResponseAgent: sending prompt (len=%d chars)''
                      [Arg_nat (length (format_prompt env q rs))]) w)))))"
  by (simp add: answer_query_def Let_def split: prod.splits)

text \<open>
  Claim C8. \<open>answer_query\<close> returns a response for every query and every list of results;
  no path of \<open>call_llm\<close> raises. When a key is set and the request fails, with a time-out
  or any other exception, the answer is the text \<^verbatim>\<open>[LLM error]\<close> followed by the text of
  the exception. When no key is set and nothing was retrieved, the answer is the fixed
  text \<^verbatim>\<open>(Stub Answer) No relevant context found.\<close>
\<close>

theorem answer_query_always_answers:
  "\<exists>ans w'.
     answer_query env q rs w = (\<lparr>answer = ans, retrieved = rs\<rparr>, w')
   \<and> (\<forall>key e. GROQ_API_KEY env = Some key \<and> key \<noteq> []
         \<and> requests_post env (GROQ_API_URL env) (''Bearer '' @ key) (format_prompt env q rs) 512
             = Inl e
        \<longrightarrow> ans = JStr (''[LLM error] '' @ exn_str e))
   \<and> ((GROQ_API_KEY env = None \<or> GROQ_API_KEY env = Some []) \<and> rs = []
        \<longrightarrow> ans = JStr ''(Stub Answer) No relevant context found.'')"
proof -
  let ?w1 = "emit (Logged INFO ''LLMResponseAgent: sending prompt (len=%d chars)''
                      [Arg_nat (length (format_prompt env q rs))]) w"
  let ?ans = "fst (fst (call_llm env (format_prompt env q rs) rs 512 ?w1))"
  have a: "answer_query env q rs w = (\<lparr>answer = ?ans, retrieved = rs\<rparr>, snd (answer_query env q rs w))"
    by (simp add: answer_query_explicit)
  have b: "\<forall>key e. GROQ_API_KEY env = Some key \<and> key \<noteq> []
         \<and> requests_post env (GROQ_API_URL env) (''Bearer '' @ key) (format_prompt env q rs) 512
             = Inl e
        \<longrightarrow> ?ans = JStr (''[LLM error] '' @ exn_str e)"
    using call_llm_failed[of env _ "format_prompt env q rs" 512 _ rs ?w1] by simp
  have c: "(GROQ_API_KEY env = None \<or> GROQ_API_KEY env = Some []) \<and> rs = []
        \<longrightarrow> ?ans = JStr ''(Stub Answer) No relevant context found.''"
    using call_llm_no_context[of env "format_prompt env q rs" 512 ?w1] by auto
  from a b c show ?thesis by blast
qed

theorem answer_query_always_answers_witness:
  "GROQ_API_KEY (demo_env\<lparr>GROQ_API_KEY := Some ''k''\<rparr>) = Some ''k'' \<and> ''k'' \<noteq> []
   \<and> answer (fst (answer_query (demo_env\<lparr>GROQ_API_KEY := Some ''k''\<rparr>) ''q'' [] fresh_world))
        = JStr ''[LLM error] timed out''
   \<and> GROQ_API_KEY demo_env = None
   \<and> answer (fst (answer_query demo_env ''q'' [] fresh_world))
        = JStr ''(Stub Answer) No relevant context found.''"
proof -
  let ?e = "demo_env\<lparr>GROQ_API_KEY := Some ''k''\<rparr>"
  have k: "GROQ_API_KEY ?e = Some ''k''" "''k'' \<noteq> []" by simp_all
  have r: "requests_post ?e (GROQ_API_URL ?e) (''Bearer '' @ ''k'') (format_prompt ?e ''q'' []) 512
             = Inl (Exception ''timed out'')"
    by (simp add: demo_env_def)
  have n: "GROQ_API_KEY demo_env = None" by (simp add: demo_env_def)
  obtain ans w' where
    "answer_query ?e ''q'' [] fresh_world = (\<lparr>answer = ans, retrieved = []\<rparr>, w')"
    and "\<forall>key e. GROQ_API_KEY ?e = Some key \<and> key \<noteq> []
         \<and> requests_post ?e (GROQ_API_URL ?e) (''Bearer '' @ key) (format_prompt ?e ''q'' []) 512
             = Inl e
        \<longrightarrow> ans = JStr (''[LLM error] '' @ exn_str e)"
    using answer_query_always_answers[of ?e "''q''" "[]" fresh_world] by blast
  with k r have 1: "answer (fst (answer_query ?e ''q'' [] fresh_world)) = JStr ''[LLM error] timed out''"
    by fastforce
  obtain ans2 w2 where
    "answer_query demo_env ''q'' [] fresh_world = (\<lparr>answer = ans2, retrieved = []\<rparr>, w2)"
    and "(GROQ_API_KEY demo_env = None \<or> GROQ_API_KEY demo_env = Some []) \<and> ([]::retrieval_result list) = []
        \<longrightarrow> ans2 = JStr ''(Stub Answer) No relevant context found.''"
    using answer_query_always_answers[of demo_env "''q''" "[]" fresh_world] by blast
  with n have 2: "answer (fst (answer_query demo_env ''q'' [] fresh_world))
        = JStr ''(Stub Answer) No relevant context found.''"
    by simp
  from k 1 n 2 show ?thesis by blast
qed

subsection \<open>The retrieval agent: claim C5\<close>

lemma foldl_append_meta: "foldl (\<lambda>ms c. ms @ [meta c]) ms cs = ms @ map meta cs"
  by (induction cs arbitrary: ms) simp_all

lemma build_index_texts:
  "texts (fst (build_index env self cs w)) = texts self @ map text cs"
  by (simp add: build_index_def Let_def)

lemma build_index_metadatas:
  "metadatas (fst (build_index env self cs w)) = metadatas self @ map meta cs"
  by (simp add: build_index_def Let_def foldl_append_meta)

lemma build_index_vectors:
  "stored_vectors (fst (build_index env self cs w))
     = stored_vectors self @ map (\<lambda>c. normalize_L2 env (encode env (text c))) cs"
  by (simp add: build_index_def Let_def stored_vectors_def add_def IndexFlatIP_def comp_def
      split: option.splits)

lemma build_index_size:
  "index_size (fst (build_index env self cs w)) = index_size self + length cs"
  by (simp add: build_index_def Let_def index_size_def ntotal_def add_def IndexFlatIP_def
      split: option.splits)

lemma build_index_dim:
  "\<exists>ix. index (fst (build_index env self cs w)) = Some ix
     \<and> d ix = (case index self of None \<Rightarrow> EMBED_DIM | Some ix0 \<Rightarrow> d ix0)"
  by (simp add: build_index_def Let_def add_def IndexFlatIP_def split: option.splits)

lemma build_indexes_texts:
  "texts (fst (build_indexes env self bs w)) = texts self @ map text (concat bs)"
  by (induction bs arbitrary: self w)
     (simp_all add: split_beta build_index_texts)

lemma build_indexes_metadatas:
  "metadatas (fst (build_indexes env self bs w)) = metadatas self @ map meta (concat bs)"
  by (induction bs arbitrary: self w)
     (simp_all add: split_beta build_index_metadatas)

lemma build_indexes_vectors:
  "stored_vectors (fst (build_indexes env self bs w))
     = stored_vectors self @ map (\<lambda>c. normalize_L2 env (encode env (text c))) (concat bs)"
  by (induction bs arbitrary: self w)
     (simp_all add: split_beta build_index_vectors)

lemma build_indexes_size:
  "index_size (fst (build_indexes env self bs w)) = index_size self + length (concat bs)"
  by (induction bs arbitrary: self w)
     (simp_all add: split_beta build_index_size)

lemma build_indexes_dim:
  "case index (fst (build_indexes env self bs w)) of
     None \<Rightarrow> index self = None \<and> concat bs = []
   | Some ix \<Rightarrow> d ix = (case index self of None \<Rightarrow> EMBED_DIM | Some ix0 \<Rightarrow> d ix0)"
proof (induction bs arbitrary: self w)
  case Nil
  show ?case by (simp split: option.splits)
next
  case (Cons cs bs)
  obtain ix where i: "index (fst (build_index env self cs w)) = Some ix"
    and dd: "d ix = (case index self of None \<Rightarrow> EMBED_DIM | Some ix0 \<Rightarrow> d ix0)"
    using build_index_dim[of env self cs w] by blast
  show ?case
    using Cons.IH[of "fst (build_index env self cs w)" "snd (build_index env self cs w)"] i dd
    by (simp add: split_beta split: option.splits)
qed

lemma fresh_agent [simp]:
  "texts RetrievalAgent = []" "metadatas RetrievalAgent = []"
  "stored_vectors RetrievalAgent = []" "index_size RetrievalAgent = 0"
  "index RetrievalAgent = None"
  by (simp_all add: RetrievalAgent_def stored_vectors_def index_size_def)

text \<open>
  Claim C5. After any sequence of \<open>build_index\<close> calls on a new agent, the size of the
  index is the total number of chunks submitted, and the texts and the metadatas are
  those of the submitted chunks in submission order, duplicates included. A further
  call, on any agent, appends its chunks to the three sequences and leaves every earlier
  entry where it was.
\<close>

theorem build_index_append_only:
  "index_size (fst (build_indexes env RetrievalAgent batches w)) = length (concat batches)
   \<and> texts (fst (build_indexes env RetrievalAgent batches w)) = map text (concat batches)
   \<and> metadatas (fst (build_indexes env RetrievalAgent batches w)) = map meta (concat batches)
   \<and> length (stored_vectors (fst (build_indexes env RetrievalAgent batches w)))
       = length (concat batches)
   \<and> index_size (fst (build_index env self chunks w1)) = index_size self + length chunks
   \<and> texts (fst (build_index env self chunks w1)) = texts self @ map text chunks
   \<and> metadatas (fst (build_index env self chunks w1)) = metadatas self @ map meta chunks
   \<and> stored_vectors (fst (build_index env self chunks w1))
       = stored_vectors self @ map (\<lambda>c. normalize_L2 env (encode env (text c))) chunks"
  by (simp add: build_indexes_size build_indexes_texts build_indexes_metadatas
      build_indexes_vectors build_index_size build_index_texts build_index_metadatas
      build_index_vectors)

subsection \<open>Ranking and retrieval\<close>

lemma zip_scores:
  "zip (map f vs) (map int [0..<length vs]) = map (\<lambda>j. (f (vs ! j), int j)) [0..<length vs]"
  by (rule nth_equalityI) simp_all

lemma all_hits:
  "zip (map (inner_product q) vs) (map int [0..<length vs]) = map (hit_of q vs) [0..<length vs]"
  by (simp add: zip_scores hit_of_def)

lemma rank_key_less: "rank_key a < rank_key b \<longleftrightarrow> ranks_before a b"
  by (auto simp: rank_key_def ranks_before_def less_prod_def)

lemma inj_rank_key: "inj rank_key"
  by (auto simp: inj_on_def rank_key_def prod_eq_iff)

lemma inj_hit_of: "inj (hit_of q vs)"
  by (auto simp: inj_on_def hit_of_def)

lemma ranking_set: "set (ranking q vs) = hit_of q vs ` {..<length vs}"
  by (auto simp: ranking_def)

lemma ranking_length: "length (ranking q vs) = length vs"
  by (simp add: ranking_def)

lemma ranking_sorted: "sorted_wrt ranks_before (ranking q vs)"
proof -
  have "distinct (map (hit_of q vs) [0..<length vs])"
    by (simp add: distinct_map inj_hit_of[THEN inj_on_subset])
  then have "distinct (ranking q vs)" by (simp add: ranking_def)
  then have "distinct (map rank_key (ranking q vs))"
    by (simp add: distinct_map inj_rank_key[THEN inj_on_subset])
  moreover have "sorted (map rank_key (ranking q vs))" by (simp add: ranking_def)
  ultimately have "sorted_wrt (<) (map rank_key (ranking q vs))"
    by (simp add: strict_sorted_iff)
  then show ?thesis by (simp add: sorted_wrt_map rank_key_less)
qed

lemma search_ranking:
  "search ix q k =
     (if length q \<noteq> d ix then Inl DimensionMismatch
      else Inr (take (nat k) (ranking q (vectors ix))))"
  by (simp add: search_def ranking_def ntotal_def all_hits)

lemma top_k_sorted: "sorted_wrt ranks_before (take n (ranking q vs))"
  using ranking_sorted[of q vs] by (rule sorted_wrt_take)

lemma top_k_best:
  assumes "h \<in> set (take n (ranking q vs))" "j < length vs"
    "hit_of q vs j \<notin> set (take n (ranking q vs))"
  shows "ranks_before h (hit_of q vs j)"
proof -
  have "hit_of q vs j \<in> set (ranking q vs)" using assms(2) by (simp add: ranking_set)
  then have "hit_of q vs j \<in> set (take n (ranking q vs)) \<union> set (drop n (ranking q vs))"
    by (simp only: set_append[symmetric] append_take_drop_id)
  with assms(3) have "hit_of q vs j \<in> set (drop n (ranking q vs))" by simp
  moreover have "sorted_wrt ranks_before (take n (ranking q vs) @ drop n (ranking q vs))"
    by (simp only: append_take_drop_id ranking_sorted)
  then have "\<forall>x \<in> set (take n (ranking q vs)). \<forall>y \<in> set (drop n (ranking q vs)). ranks_before x y"
    by (simp only: sorted_wrt_append) blast
  ultimately show ?thesis using assms(1) by blast
qed

lemma top_k_stored:
  assumes "h \<in> set (take n (ranking q vs))"
  shows "\<exists>j < length vs. h = hit_of q vs j"
proof -
  from assms have "h \<in> set (ranking q vs)" by (rule in_set_takeD)
  then show ?thesis by (auto simp: ranking_set)
qed

lemma results_loop_ok:
  assumes "\<forall>h \<in> set hits. 0 \<le> snd h \<and> nat (snd h) < length (metadatas self)
             \<and> nat (snd h) < length (texts self)"
  shows "results_loop self hits acc = Inr (acc @ map (result_of self) hits)"
  using assms
proof (induction hits arbitrary: acc)
  case Nil
  show ?case by simp
next
  case (Cons h hits)
  obtain sc idx where h: "h = (sc, idx)" by (cases h)
  with Cons.prems have "0 \<le> idx" "nat idx < length (metadatas self)" "nat idx < length (texts self)"
    by simp_all
  then show ?case using Cons h by (simp add: result_of_def)
qed


lemma built_agent:
  "texts (fst (build_indexes env RetrievalAgent batches w)) = map text (concat batches)"
  "metadatas (fst (build_indexes env RetrievalAgent batches w)) = map meta (concat batches)"
  "stored_vectors (fst (build_indexes env RetrievalAgent batches w))
     = map (\<lambda>c. normalize_L2 env (encode env (text c))) (concat batches)"
  by (simp_all add: build_indexes_texts build_indexes_metadatas build_indexes_vectors)

lemma built_index:
  "case index (fst (build_indexes env RetrievalAgent batches w)) of
     None \<Rightarrow> concat batches = []
   | Some ix \<Rightarrow> d ix = EMBED_DIM \<and> ntotal ix = length (concat batches)
       \<and> vectors ix = stored_vectors (fst (build_indexes env RetrievalAgent batches w))"
  using build_indexes_dim[where env = env and self = RetrievalAgent and bs = batches and w = w]
    built_agent(3)[where env = env and batches = batches and w = w]
  by (auto simp: stored_vectors_def ntotal_def split: option.splits)

lemma retrieve_built:
  "retrieve env (fst (build_indexes env RetrievalAgent batches w)) q k =
     (if concat batches = [] then Inr []
      else if length (normalize_L2 env (encode env q)) \<noteq> EMBED_DIM then Inl DimensionMismatch
      else Inr (map (result_of (fst (build_indexes env RetrievalAgent batches w)))
             (take (nat k) (ranking (normalize_L2 env (encode env q))
                (stored_vectors (fst (build_indexes env RetrievalAgent batches w)))))))"
proof -
  let ?self = "fst (build_indexes env RetrievalAgent batches w)"
  let ?qv = "normalize_L2 env (encode env q)"
  show ?thesis
  proof (cases "index ?self")
    case None
    then have "concat batches = []"
      using built_index[where env = env and batches = batches and w = w] by simp
    with None show ?thesis by (simp add: retrieve_def)
  next
    case (Some ix)
    then have ix: "d ix = EMBED_DIM" "ntotal ix = length (concat batches)"
      "vectors ix = stored_vectors ?self"
      using built_index[where env = env and batches = batches and w = w] by simp_all
    have len: "length (texts ?self) = length (concat batches)"
      "length (metadatas ?self) = length (concat batches)"
      "length (stored_vectors ?self) = length (concat batches)"
      by (simp_all add: built_agent)
    show ?thesis
    proof (cases "concat batches = []")
      case True
      with Some ix show ?thesis by (simp add: retrieve_def)
    next
      case ne: False
      show ?thesis
      proof (cases "length ?qv = EMBED_DIM")
        case False
        with Some ix ne show ?thesis
          by (simp add: retrieve_def search_ranking Let_def)
      next
        case True
        let ?hits = "take (nat k) (ranking ?qv (stored_vectors ?self))"
        have "\<forall>h \<in> set ?hits. 0 \<le> snd h \<and> nat (snd h) < length (metadatas ?self)
               \<and> nat (snd h) < length (texts ?self)"
        proof
          fix h assume "h \<in> set ?hits"
          then obtain j where "j < length (stored_vectors ?self)"
            "h = hit_of ?qv (stored_vectors ?self) j"
            using top_k_stored by blast
          then show "0 \<le> snd h \<and> nat (snd h) < length (metadatas ?self)
               \<and> nat (snd h) < length (texts ?self)"
            using len by (simp add: hit_of_def)
        qed
        then have "results_loop ?self ?hits [] = Inr (map (result_of ?self) ?hits)"
          using results_loop_ok[of ?hits ?self "[]"] by simp
        moreover have "ntotal ix \<noteq> 0" using ix(2) ne by simp
        ultimately have e: "retrieve env ?self q k = Inr (map (result_of ?self) ?hits)"
          using Some ix(1,3) True by (simp add: retrieve_def search_ranking Let_def)
        show ?thesis
          using e by (simp only: ne True if_False simp_thms)
      qed
    qed
  qed
qed

subsection \<open>Search: claims C1, C4 and C7\<close>

lemma score_result_of: "score (result_of self h) = fst h"
  by (simp add: result_of_def)

lemma ranks_before_score: "ranks_before a b \<Longrightarrow> fst b \<le> fst a"
  by (auto simp: ranks_before_def)

lemma results_descending:
  assumes "sorted_wrt ranks_before hits"
  shows "sorted_wrt (\<lambda>a b. score b \<le> score a) (map (result_of self) hits)"
proof -
  have "sorted_wrt (\<lambda>a b. fst b \<le> fst a) hits"
    using assms by (rule sorted_wrt_mono_rel[rotated]) (simp add: ranks_before_score)
  then show ?thesis by (simp add: sorted_wrt_map score_result_of)
qed

text \<open>
  Claim C1. On a new agent, before any index is built, \<open>retrieve\<close> returns the empty
  list. After any sequence of \<open>build_index\<close> calls that stored \<open>N\<close> chunks, and for
  \<open>k \<ge> 0\<close> and a query whose vector has the dimension of the index, \<open>retrieve\<close> returns
  the results of \<open>min k N\<close> hits: all of them when \<open>N < k\<close>, none when \<open>N = 0\<close>. The hits
  are stored ordinals with their inner products, each comes before the next (higher
  score, or equal score and lower ordinal), so the scores of the results descend, and
  every stored ordinal that is left out comes after every hit returned.
\<close>

theorem retrieve_top_k:
  assumes "0 \<le> k"
    and "concat batches \<noteq> [] \<longrightarrow> length (normalize_L2 env (encode env q)) = EMBED_DIM"
  shows "retrieve env RetrievalAgent q k = Inr []
   \<and> (\<exists>hits.
        retrieve env (fst (build_indexes env RetrievalAgent batches w)) q k
          = Inr (map (result_of (fst (build_indexes env RetrievalAgent batches w))) hits)
      \<and> length hits = min (nat k) (length (concat batches))
      \<and> sorted_wrt ranks_before hits
      \<and> sorted_wrt (\<lambda>a b. score b \<le> score a)
          (map (result_of (fst (build_indexes env RetrievalAgent batches w))) hits)
      \<and> (\<forall>h \<in> set hits. \<exists>j < length (concat batches).
            h = hit_of (normalize_L2 env (encode env q))
                  (stored_vectors (fst (build_indexes env RetrievalAgent batches w))) j)
      \<and> (\<forall>j < length (concat batches).
            hit_of (normalize_L2 env (encode env q))
              (stored_vectors (fst (build_indexes env RetrievalAgent batches w))) j \<notin> set hits
            \<longrightarrow> (\<forall>h \<in> set hits. ranks_before h
                   (hit_of (normalize_L2 env (encode env q))
                     (stored_vectors (fst (build_indexes env RetrievalAgent batches w))) j))))"
proof
  show "retrieve env RetrievalAgent q k = Inr []"
    by (simp add: retrieve_def)
next
  let ?self = "fst (build_indexes env RetrievalAgent batches w)"
  let ?qv = "normalize_L2 env (encode env q)"
  let ?vs = "stored_vectors ?self"
  let ?hits = "take (nat k) (ranking ?qv ?vs)"
  have n: "length ?vs = length (concat batches)" by (simp add: built_agent)
  have r: "retrieve env ?self q k = Inr (map (result_of ?self) ?hits)"
  proof (cases "concat batches = []")
    case True
    have "?vs = []" using n[unfolded True] by simp
    then have "?hits = []" using ranking_length[of ?qv ?vs] by simp
    then show ?thesis using True by (simp only: retrieve_built if_True list.map simp_thms)
  next
    case False
    with assms(2) have "length ?qv = EMBED_DIM" by simp
    then show ?thesis using False by (simp only: retrieve_built if_False simp_thms)
  qed
  have l: "length ?hits = min (nat k) (length (concat batches))"
    using n by (simp add: ranking_length min.commute)
  have s: "sorted_wrt ranks_before ?hits" by (rule top_k_sorted)
  have sd: "sorted_wrt (\<lambda>a b. score b \<le> score a) (map (result_of ?self) ?hits)"
    using s by (rule results_descending)
  have st: "\<forall>h \<in> set ?hits. \<exists>j < length (concat batches). h = hit_of ?qv ?vs j"
    using top_k_stored[of _ "nat k" ?qv ?vs] n by simp
  have b: "\<forall>j < length (concat batches). hit_of ?qv ?vs j \<notin> set ?hits
            \<longrightarrow> (\<forall>h \<in> set ?hits. ranks_before h (hit_of ?qv ?vs j))"
    using top_k_best[of _ "nat k" ?qv ?vs] n by simp
  from r l s sd st b show "\<exists>hits.
        retrieve env ?self q k = Inr (map (result_of ?self) hits)
      \<and> length hits = min (nat k) (length (concat batches))
      \<and> sorted_wrt ranks_before hits
      \<and> sorted_wrt (\<lambda>a b. score b \<le> score a) (map (result_of ?self) hits)
      \<and> (\<forall>h \<in> set hits. \<exists>j < length (concat batches). h = hit_of ?qv ?vs j)
      \<and> (\<forall>j < length (concat batches). hit_of ?qv ?vs j \<notin> set hits
            \<longrightarrow> (\<forall>h \<in> set hits. ranks_before h (hit_of ?qv ?vs j)))"
    by blast
qed


theorem retrieve_top_k_witness:
  "(0::int) \<le> 5
   \<and> length (normalize_L2 demo_env (encode demo_env ''q'')) = EMBED_DIM
   \<and> (\<exists>rs. retrieve demo_env
          (fst (build_indexes demo_env RetrievalAgent
             [ [\<lparr>text = ''a'', meta = \<lparr>filename = ''f'', chunk_index = 0\<rparr>\<rparr>,
               \<lparr>text = ''bb'', meta = \<lparr>filename = ''f'', chunk_index = 1\<rparr>\<rparr>] ]
             fresh_world)) ''q'' 5 = Inr rs
        \<and> length rs = 2)"
proof -
  let ?b = "[ [\<lparr>text = ''a'', meta = \<lparr>filename = ''f'', chunk_index = 0\<rparr>\<rparr>,
               \<lparr>text = ''bb'', meta = \<lparr>filename = ''f'', chunk_index = 1\<rparr>\<rparr>] ]"
  have k: "(0::int) \<le> 5" by simp
  have q: "length (normalize_L2 demo_env (encode demo_env ''q'')) = EMBED_DIM"
    by (simp add: demo_env_def EMBED_DIM_def)
  then have q': "concat ?b \<noteq> [] \<longrightarrow> length (normalize_L2 demo_env (encode demo_env ''q'')) = EMBED_DIM"
    by simp
  obtain hits where
    "retrieve demo_env (fst (build_indexes demo_env RetrievalAgent ?b fresh_world)) ''q'' 5
       = Inr (map (result_of (fst (build_indexes demo_env RetrievalAgent ?b fresh_world))) hits)"
    and "length hits = min (nat 5) (length (concat ?b))"
    using retrieve_top_k[OF k q', of fresh_world] by blast
  then have "\<exists>rs. retrieve demo_env (fst (build_indexes demo_env RetrievalAgent ?b fresh_world)) ''q'' 5
       = Inr rs \<and> length rs = 2"
    by simp
  with k q show ?thesis by blast
qed

text \<open>
  Claim C4. After any sequence of \<open>build_index\<close> calls on a new agent, the parallel lists
  hold the texts and the metas of the submitted chunks in submission order, \<open>retrieve\<close>
  never fails on a lookup, and every result it returns for the ordinal \<open>j\<close> that the
  search gave at that position carries the text and the meta of the \<open>j\<close>-th chunk
  submitted, with the score of that chunk's vector.
\<close>

theorem retrieval_round_trip:
  "texts (fst (build_indexes env RetrievalAgent batches w)) = map text (concat batches)
   \<and> metadatas (fst (build_indexes env RetrievalAgent batches w)) = map meta (concat batches)
   \<and> retrieve env (fst (build_indexes env RetrievalAgent batches w)) q k \<noteq> Inl IndexError
   \<and> (\<forall>rs. retrieve env (fst (build_indexes env RetrievalAgent batches w)) q k = Inr rs \<longrightarrow>
        (\<forall>n < length rs. \<exists>j < length (concat batches).
           take (nat k) (ranking (normalize_L2 env (encode env q))
              (stored_vectors (fst (build_indexes env RetrievalAgent batches w)))) ! n
             = (score (rs ! n), int j)
         \<and> text (rs ! n) = text (concat batches ! j)
         \<and> meta (rs ! n) = meta (concat batches ! j)
         \<and> score (rs ! n)
             = inner_product (normalize_L2 env (encode env q))
                 (normalize_L2 env (encode env (text (concat batches ! j))))))"
proof -
  let ?self = "fst (build_indexes env RetrievalAgent batches w)"
  let ?qv = "normalize_L2 env (encode env q)"
  let ?vs = "stored_vectors ?self"
  let ?hits = "take (nat k) (ranking ?qv ?vs)"
  have t: "texts ?self = map text (concat batches)"
    and m: "metadatas ?self = map meta (concat batches)"
    and v: "?vs = map (\<lambda>c. normalize_L2 env (encode env (text c))) (concat batches)"
    by (simp_all add: built_agent)
  have ne: "retrieve env ?self q k \<noteq> Inl IndexError"
    by (simp add: retrieve_built)
  have rt: "\<forall>rs. retrieve env ?self q k = Inr rs \<longrightarrow>
        (\<forall>n < length rs. \<exists>j < length (concat batches).
           ?hits ! n = (score (rs ! n), int j)
         \<and> text (rs ! n) = text (concat batches ! j)
         \<and> meta (rs ! n) = meta (concat batches ! j)
         \<and> score (rs ! n)
             = inner_product ?qv (normalize_L2 env (encode env (text (concat batches ! j)))))"
  proof (intro allI impI)
    fix rs n
    assume r: "retrieve env ?self q k = Inr rs" and n: "n < length rs"
    have "rs = [] \<or> rs = map (result_of ?self) ?hits"
      using r by (simp add: retrieve_built split: if_splits)
    with n have rs: "rs = map (result_of ?self) ?hits" by auto
    with n have nh: "n < length ?hits" by simp
    then have "?hits ! n \<in> set ?hits" by (rule nth_mem)
    then obtain j where j: "j < length ?vs" and h: "?hits ! n = hit_of ?qv ?vs j"
      using top_k_stored by blast
    have jl: "j < length (concat batches)" using j v by simp
    have rn: "rs ! n = result_of ?self (hit_of ?qv ?vs j)"
      using rs nh h by simp
    have "?hits ! n = (score (rs ! n), int j)"
      using h rn by (simp add: hit_of_def result_of_def)
    moreover have "text (rs ! n) = text (concat batches ! j)"
      using rn jl t by (simp add: hit_of_def result_of_def)
    moreover have "meta (rs ! n) = meta (concat batches ! j)"
      using rn jl m by (simp add: hit_of_def result_of_def)
    moreover have "score (rs ! n)
             = inner_product ?qv (normalize_L2 env (encode env (text (concat batches ! j))))"
      using rn jl v by (simp add: hit_of_def result_of_def)
    ultimately show "\<exists>j < length (concat batches).
           ?hits ! n = (score (rs ! n), int j)
         \<and> text (rs ! n) = text (concat batches ! j)
         \<and> meta (rs ! n) = meta (concat batches ! j)
         \<and> score (rs ! n)
             = inner_product ?qv (normalize_L2 env (encode env (text (concat batches ! j))))"
      using jl by blast
  qed
  from t m ne rt show ?thesis by blast
qed


theorem retrieval_round_trip_witness:
  "\<exists>rs. retrieve demo_env
          (fst (build_indexes demo_env RetrievalAgent
             [ [\<lparr>text = ''a'', meta = \<lparr>filename = ''f'', chunk_index = 0\<rparr>\<rparr>],
              [\<lparr>text = ''bb'', meta = \<lparr>filename = ''g'', chunk_index = 0\<rparr>\<rparr>] ]
             fresh_world)) ''q'' 5 = Inr rs
     \<and> 0 < length rs
     \<and> (\<exists>j < 2. text (rs ! 0)
             = text ([\<lparr>text = ''a'', meta = \<lparr>filename = ''f'', chunk_index = 0\<rparr>\<rparr>,
                     \<lparr>text = ''bb'', meta = \<lparr>filename = ''g'', chunk_index = 0\<rparr>\<rparr>] ! j)
           \<and> meta (rs ! 0)
             = meta ([\<lparr>text = ''a'', meta = \<lparr>filename = ''f'', chunk_index = 0\<rparr>\<rparr>,
                     \<lparr>text = ''bb'', meta = \<lparr>filename = ''g'', chunk_index = 0\<rparr>\<rparr>] ! j))"
proof -
  let ?b = "[ [\<lparr>text = ''a'', meta = \<lparr>filename = ''f'', chunk_index = 0\<rparr>\<rparr>],
              [\<lparr>text = ''bb'', meta = \<lparr>filename = ''g'', chunk_index = 0\<rparr>\<rparr>] ]"
  let ?self = "fst (build_indexes demo_env RetrievalAgent ?b fresh_world)"
  let ?hits = "take (nat 5) (ranking (normalize_L2 demo_env (encode demo_env ''q''))
                 (stored_vectors ?self))"
  have q: "length (normalize_L2 demo_env (encode demo_env ''q'')) = EMBED_DIM"
    by (simp add: demo_env_def EMBED_DIM_def)
  have ne: "concat ?b \<noteq> []" by simp
  have r: "retrieve demo_env ?self ''q'' 5 = Inr (map (result_of ?self) ?hits)"
    using q ne by (simp only: retrieve_built if_False simp_thms)
  have l: "0 < length (map (result_of ?self) ?hits)"
    by (simp add: ranking_length built_agent del: build_indexes.simps)
  obtain j where jl: "j < length (concat ?b)"
    and t: "text (map (result_of ?self) ?hits ! 0) = text (concat ?b ! j)"
    and m: "meta (map (result_of ?self) ?hits ! 0) = meta (concat ?b ! j)"
    using retrieval_round_trip[of demo_env ?b fresh_world "''q''" 5] r l by blast
  have cc: "concat ?b = [\<lparr>text = ''a'', meta = \<lparr>filename = ''f'', chunk_index = 0\<rparr>\<rparr>,
                     \<lparr>text = ''bb'', meta = \<lparr>filename = ''g'', chunk_index = 0\<rparr>\<rparr>]"
    by simp
  have j2: "j < 2" using jl by simp
  from t m j2 have "\<exists>j < 2. text (map (result_of ?self) ?hits ! 0)
             = text ([\<lparr>text = ''a'', meta = \<lparr>filename = ''f'', chunk_index = 0\<rparr>\<rparr>,
                     \<lparr>text = ''bb'', meta = \<lparr>filename = ''g'', chunk_index = 0\<rparr>\<rparr>] ! j)
           \<and> meta (map (result_of ?self) ?hits ! 0)
             = meta ([\<lparr>text = ''a'', meta = \<lparr>filename = ''f'', chunk_index = 0\<rparr>\<rparr>,
                     \<lparr>text = ''bb'', meta = \<lparr>filename = ''g'', chunk_index = 0\<rparr>\<rparr>] ! j)"
    unfolding cc by blast
  with r l show ?thesis by blast
qed

text \<open>
  Claim C7. A query vector whose dimension is not 384 makes the search of every index of
  that dimension fail with \<open>DimensionMismatch\<close>. On an agent that holds chunks,
  \<open>retrieve\<close> passes the error on, and \<open>handle_query\<close> returns it with the state as it
  was: the index, the parallel lists and the events are unchanged, no envelope is sent.
\<close>

theorem dimension_mismatch_fails:
  assumes "length (normalize_L2 env (encode env q)) \<noteq> EMBED_DIM"
    and "concat batches \<noteq> []"
    and "default_agent w = fst (build_indexes env RetrievalAgent batches w0)"
  shows "(\<forall>ix. d ix = EMBED_DIM \<longrightarrow>
            search ix (normalize_L2 env (encode env q)) k = Inl DimensionMismatch)
   \<and> retrieve env (default_agent w) q k = Inl DimensionMismatch
   \<and> handle_query env q k w = (Inl DimensionMismatch, w)"
proof -
  have a: "\<forall>ix. d ix = EMBED_DIM \<longrightarrow>
            search ix (normalize_L2 env (encode env q)) k = Inl DimensionMismatch"
    using assms(1) by (simp add: search_def)
  have b: "retrieve env (default_agent w) q k = Inl DimensionMismatch"
    using assms(1,2) unfolding assms(3) by (simp only: retrieve_built if_False if_True simp_thms)
  then have c: "handle_query env q k w = (Inl DimensionMismatch, w)"
    by (simp add: handle_query_def)
  from a b c show ?thesis by blast
qed

theorem dimension_mismatch_fails_witness:
  "length (normalize_L2 (demo_env\<lparr>encode := \<lambda>t. replicate 128 1\<rparr>)
            (encode (demo_env\<lparr>encode := \<lambda>t. replicate 128 1\<rparr>) ''q'')) \<noteq> EMBED_DIM
   \<and> concat [ [\<lparr>text = ''a'', meta = \<lparr>filename = ''f'', chunk_index = 0\<rparr>\<rparr>] ] \<noteq> []
   \<and> handle_query (demo_env\<lparr>encode := \<lambda>t. replicate 128 1\<rparr>) ''q'' 5
        (fresh_world\<lparr>default_agent := fst (build_indexes (demo_env\<lparr>encode := \<lambda>t. replicate 128 1\<rparr>)
            RetrievalAgent [ [\<lparr>text = ''a'', meta = \<lparr>filename = ''f'', chunk_index = 0\<rparr>\<rparr>] ]
            fresh_world)\<rparr>)
      = (Inl DimensionMismatch,
         fresh_world\<lparr>default_agent := fst (build_indexes (demo_env\<lparr>encode := \<lambda>t. replicate 128 1\<rparr>)
            RetrievalAgent [ [\<lparr>text = ''a'', meta = \<lparr>filename = ''f'', chunk_index = 0\<rparr>\<rparr>] ]
            fresh_world)\<rparr>)"
proof -
  let ?e = "demo_env\<lparr>encode := \<lambda>t. replicate 128 1\<rparr>"
  let ?b = "[ [\<lparr>text = ''a'', meta = \<lparr>filename = ''f'', chunk_index = 0\<rparr>\<rparr>] ]"
  let ?w = "fresh_world\<lparr>default_agent := fst (build_indexes ?e RetrievalAgent ?b fresh_world)\<rparr>"
  have 1: "length (normalize_L2 ?e (encode ?e ''q'')) \<noteq> EMBED_DIM"
    by (simp add: demo_env_def EMBED_DIM_def)
  have 2: "concat ?b \<noteq> []" by simp
  have 3: "default_agent ?w = fst (build_indexes ?e RetrievalAgent ?b fresh_world)" by simp
  from dimension_mismatch_fails[OF 1 2 3, of 5] 1 2 show ?thesis by blast
qed

subsection \<open>The coordinator: claim C3\<close>

lemma printed_append: "printed (xs @ ys) = printed xs @ printed ys"
  by (induction xs rule: printed.induct) simp_all

lemma build_index_any_world:
  "fst (build_index env self cs w) = fst (build_index env self cs w')"
  by (simp add: build_index_def Let_def)

lemma index_chunks_agent:
  "default_agent (index_chunks env cs w) = fst (build_index env (default_agent w) cs w)"
  by (simp add: index_chunks_def split_beta)

lemma index_chunks_events:
  "events (index_chunks env cs w) = events w @
     [Logged INFO ''RetrievalAgent: index size now %d''
        [Arg_nat (index_size (default_agent w) + length cs)]]"
  by (simp add: index_chunks_def build_index_def Let_def emit_def index_size_def ntotal_def
      add_def IndexFlatIP_def split: option.splits)

lemma handle_query_agent:
  "default_agent (snd (handle_query env q k w)) = default_agent w"
  by (simp add: handle_query_def send_mcp_message_None split: sum.splits)

lemma handle_query_events:
  "\<exists>log. events (snd (handle_query env q k w)) = events w @ log
     \<and> (\<forall>m \<in> set (printed log). type m = ''RETRIEVAL_RESULT'')"
proof (cases "retrieve env (default_agent w) q k")
  case (Inl e)
  then have "events (snd (handle_query env q k w)) = events w @ []"
    by (simp add: handle_query_def)
  then show ?thesis by (intro exI[of _ "[]"]) simp
next
  case (Inr found)
  then show ?thesis
    by (simp add: handle_query_def send_mcp_message_None)
qed

lemma call_llm_agent:
  "default_agent (snd (call_llm env prompt rs n w)) = default_agent w"
  by (simp add: call_llm_def llm_failed_def emit_def Let_def
      split: option.splits sum.splits json.splits)

lemma call_llm_events:
  "\<exists>log. events (snd (call_llm env prompt rs n w)) = events w @ log \<and> printed log = []"
  by (simp add: call_llm_def llm_failed_def emit_def Let_def
      split: option.splits sum.splits json.splits)

lemma answer_query_agent:
  "default_agent (snd (answer_query env q rs w)) = default_agent w"
  by (simp add: answer_query_explicit send_mcp_message_None call_llm_agent emit_def)

lemma answer_query_events:
  "\<exists>log. events (snd (answer_query env q rs w)) = events w @ log
     \<and> (\<forall>m \<in> set (printed log). type m = ''FINAL_RESPONSE'')"
proof -
  let ?w1 = "emit (Logged INFO ''LLMResponseAgent: sending prompt (len=%d chars)''
                      [Arg_nat (length (format_prompt env q rs))]) w"
  obtain l where l: "events (snd (call_llm env (format_prompt env q rs) rs 512 ?w1)) = events ?w1 @ l"
    and p: "printed l = []"
    using call_llm_events by blast
  have "events ?w1 = events w @ [Logged INFO ''LLMResponseAgent: sending prompt (len=%d chars)''
                      [Arg_nat (length (format_prompt env q rs))]]"
    by (simp add: emit_def)
  with l have "\<exists>m. events (snd (answer_query env q rs w)) = events w @
      ([Logged INFO ''LLMResponseAgent: sending prompt (len=%d chars)''
                      [Arg_nat (length (format_prompt env q rs))]] @ l @
       [Printed m, Logged INFO ''MCP message: %s -> %s : %s''
          [Arg_str ''LLMResponseAgent'', Arg_str ''UI'', Arg_str ''FINAL_RESPONSE'']])
      \<and> type m = ''FINAL_RESPONSE''"
    by (simp add: answer_query_explicit send_mcp_message_None)
  then obtain m where e: "events (snd (answer_query env q rs w)) = events w @
      ([Logged INFO ''LLMResponseAgent: sending prompt (len=%d chars)''
                      [Arg_nat (length (format_prompt env q rs))]] @ l @
       [Printed m, Logged INFO ''MCP message: %s -> %s : %s''
          [Arg_str ''LLMResponseAgent'', Arg_str ''UI'', Arg_str ''FINAL_RESPONSE'']])"
    and t: "type m = ''FINAL_RESPONSE''" by blast
  have "\<forall>m' \<in> set (printed ([Logged INFO ''LLMResponseAgent: sending prompt (len=%d chars)''
                      [Arg_nat (length (format_prompt env q rs))]] @ l @
       [Printed m, Logged INFO ''MCP message: %s -> %s : %s''
          [Arg_str ''LLMResponseAgent'', Arg_str ''UI'', Arg_str ''FINAL_RESPONSE'']])).
        type m' = ''FINAL_RESPONSE''"
    using p t by (simp add: printed_append)
  with e show ?thesis by blast
qed


lemma ingest_loop_result:
  "ingest_loop env ps [] w =
     (Inr (concat (map (\<lambda>q. document_chunks env q (Some q)) ps)), snd (ingest_loop env ps [] w))"
  using ingest_loop_fst[of env ps "[]" w] by (simp add: prod_eq_iff)

text \<open>
  Claim C3, as the code has it. After the ingestion, \<open>handle_uploads_and_query\<close> prints
  one \<^verbatim>\<open>BUILD_INDEX\<close> envelope whose payload is the number of accumulated chunks, also
  when that number is 0. When there are no chunks \<open>build_index\<close> is not called: the agent
  stays as it was and no index size is logged. When there are chunks, \<open>build_index\<close> is
  called after the envelope, once, with the whole accumulated sequence. Nothing that
  follows prints another \<^verbatim>\<open>BUILD_INDEX\<close> envelope.
\<close>

theorem build_index_message_always_sent:
  fixes env ps query w
  defines "all_chunks \<equiv> concat (map (\<lambda>q. document_chunks env q (Some q)) ps)"
    and "w1 \<equiv> snd (ingest_loop env ps [] w)"
    and "w_end \<equiv> snd (handle_uploads_and_query env ps query w)"
  shows "fst (ingest_loop env ps [] w) = Inr all_chunks
   \<and> (\<exists>rest. events w_end = events w1
         @ [Printed \<lparr>sender = ''CoordinatorAgent'', receiver = ''RetrievalAgent'',
              type = ''BUILD_INDEX'',
              trace_id = ''rag'' @ ''-'' @ take 8 (uuid4_hex env (uuid_draws w1)),
              payload = Build_index_payload (length all_chunks)\<rparr>,
            Logged INFO ''MCP message: %s -> %s : %s''
              [Arg_str ''CoordinatorAgent'', Arg_str ''RetrievalAgent'', Arg_str ''BUILD_INDEX'']]
         @ (if all_chunks = [] then []
            else [Logged INFO ''RetrievalAgent: index size now %d''
                    [Arg_nat (index_size (default_agent w) + length all_chunks)]])
         @ rest
       \<and> (\<forall>m \<in> set (printed rest). type m \<noteq> ''BUILD_INDEX''))
   \<and> default_agent w_end =
       (if all_chunks = [] then default_agent w
        else fst (build_index env (default_agent w) all_chunks w))"
proof -
  let ?m = "\<lparr>sender = ''CoordinatorAgent'', receiver = ''RetrievalAgent'',
              type = ''BUILD_INDEX'',
              trace_id = ''rag'' @ ''-'' @ take 8 (uuid4_hex env (uuid_draws w1)),
              payload = Build_index_payload (length all_chunks)\<rparr>"
  let ?l2 = "[Printed ?m, Logged INFO ''MCP message: %s -> %s : %s''
              [Arg_str ''CoordinatorAgent'', Arg_str ''RetrievalAgent'', Arg_str ''BUILD_INDEX'']]"
  let ?l3 = "if all_chunks = [] then []
            else [Logged INFO ''RetrievalAgent: index size now %d''
                    [Arg_nat (index_size (default_agent w) + length all_chunks)]]"
  let ?w2 = "snd (send_mcp_message env ''CoordinatorAgent'' ''RetrievalAgent'' ''BUILD_INDEX''
               (Build_index_payload (length all_chunks)) None w1)"
  let ?w3 = "if all_chunks \<noteq> [] then index_chunks env all_chunks ?w2 else ?w2"
  have ing: "ingest_loop env ps [] w = (Inr all_chunks, w1)"
    unfolding all_chunks_def w1_def by (rule ingest_loop_result)
  have a1: "default_agent w1 = default_agent w"
    unfolding w1_def by (rule ingest_loop_agent)
  have e2: "events ?w2 = events w1 @ ?l2" and a2: "default_agent ?w2 = default_agent w"
    using a1 by (simp_all add: send_mcp_message_None)
  have e3: "events ?w3 = events w1 @ ?l2 @ ?l3"
  proof (cases "all_chunks = []")
    case True
    have "?w3 = ?w2" by (simp only: True simp_thms if_False)
    moreover have "?l3 = []" by (simp only: True simp_thms if_True)
    ultimately show ?thesis using e2 by (simp only: append_Nil2)
  next
    case False
    have "?w3 = index_chunks env all_chunks ?w2" by (simp only: False simp_thms if_True)
    moreover have "?l3 = [Logged INFO ''RetrievalAgent: index size now %d''
                    [Arg_nat (index_size (default_agent w) + length all_chunks)]]"
      by (simp only: False simp_thms if_False)
    ultimately show ?thesis using e2 a2 by (simp only: index_chunks_events append_assoc)
  qed
  have a3: "default_agent ?w3 =
       (if all_chunks = [] then default_agent w
        else fst (build_index env (default_agent w) all_chunks w))"
  proof (cases "all_chunks = []")
    case True
    have "?w3 = ?w2" by (simp only: True simp_thms if_False)
    then show ?thesis using a2 by (simp only: True simp_thms if_True)
  next
    case False
    have "?w3 = index_chunks env all_chunks ?w2" by (simp only: False simp_thms if_True)
    then show ?thesis
      using a2 build_index_any_world[of env "default_agent w" all_chunks ?w2 w]
      by (simp only: False simp_thms if_False index_chunks_agent)
  qed
  have hu: "handle_uploads_and_query env ps query w =
     (case handle_query env query 5 ?w3 of
        (Inl e, w4) \<Rightarrow> (Inl e, w4)
      | (Inr found, w4) \<Rightarrow>
          (case answer_query env query found w4 of (resp, w5) \<Rightarrow> (Inr resp, w5)))"
    by (simp add: handle_uploads_and_query_def ing Let_def split_beta)
  obtain l4 where e4: "events (snd (handle_query env query 5 ?w3)) = events ?w3 @ l4"
    and p4: "\<forall>m \<in> set (printed l4). type m = ''RETRIEVAL_RESULT''"
    using handle_query_events by blast
  have a4: "default_agent (snd (handle_query env query 5 ?w3)) = default_agent ?w3"
    by (rule handle_query_agent)
  have "\<exists>rest. events w_end = events ?w3 @ rest
      \<and> (\<forall>m \<in> set (printed rest). type m \<noteq> ''BUILD_INDEX'')
      \<and> default_agent w_end = default_agent ?w3"
  proof (cases "handle_query env query 5 ?w3")
    case (Pair r w4)
    then have w4: "w4 = snd (handle_query env query 5 ?w3)" by simp
    show ?thesis
    proof (cases r)
      case (Inl e)
      with Pair hu have "w_end = w4" by (simp add: w_end_def)
      then show ?thesis using e4 p4 a4 w4 by auto
    next
      case (Inr found)
      with Pair hu have f: "w_end = snd (answer_query env query found w4)"
        by (simp add: w_end_def split_beta)
      obtain l5 where e5: "events w_end = events w4 @ l5"
        and p5: "\<forall>m \<in> set (printed l5). type m = ''FINAL_RESPONSE''"
        using answer_query_events f by blast
      have "events w_end = events ?w3 @ (l4 @ l5)" using e5 e4 w4 by simp
      moreover have "\<forall>m \<in> set (printed (l4 @ l5)). type m \<noteq> ''BUILD_INDEX''"
        using p4 p5 by (auto simp: printed_append)
      moreover have "default_agent w_end = default_agent ?w3"
        using f a4 w4 by (simp add: answer_query_agent)
      ultimately show ?thesis by blast
    qed
  qed
  then obtain rest where ef: "events w_end = events ?w3 @ rest"
    and pf: "\<forall>m \<in> set (printed rest). type m \<noteq> ''BUILD_INDEX''"
    and af: "default_agent w_end = default_agent ?w3" by blast
  have "events w_end = events w1 @ ?l2 @ ?l3 @ rest" using ef e3 by simp
  with pf have "\<exists>rest. events w_end = events w1 @ ?l2 @ ?l3 @ rest
       \<and> (\<forall>m \<in> set (printed rest). type m \<noteq> ''BUILD_INDEX'')" by blast
  moreover have "fst (ingest_loop env ps [] w) = Inr all_chunks" using ing by simp
  moreover have "default_agent w_end =
       (if all_chunks = [] then default_agent w
        else fst (build_index env (default_agent w) all_chunks w))"
    using af a3 by simp
  ultimately show ?thesis by blast
qed


theorem build_index_message_always_sent_witness:
  "default_agent (snd (handle_uploads_and_query demo_env [] ''q'' fresh_world)) = RetrievalAgent
   \<and> texts (default_agent (snd (handle_uploads_and_query demo_env [''a.txt''] ''q'' fresh_world)))
       = [''ab'']"
proof -
  have "default_agent (snd (handle_uploads_and_query demo_env [] ''q'' fresh_world)) =
       (if concat (map (\<lambda>q. document_chunks demo_env q (Some q)) []) = []
        then default_agent fresh_world
        else fst (build_index demo_env (default_agent fresh_world)
               (concat (map (\<lambda>q. document_chunks demo_env q (Some q)) [])) fresh_world))"
    using build_index_message_always_sent[of demo_env "[]" fresh_world "''q''"] by blast
  then have 1: "default_agent (snd (handle_uploads_and_query demo_env [] ''q'' fresh_world))
      = RetrievalAgent"
    by (simp add: fresh_world_def)
  have "default_agent (snd (handle_uploads_and_query demo_env [''a.txt''] ''q'' fresh_world)) =
       (if concat (map (\<lambda>q. document_chunks demo_env q (Some q)) [''a.txt'']) = []
        then default_agent fresh_world
        else fst (build_index demo_env (default_agent fresh_world)
               (concat (map (\<lambda>q. document_chunks demo_env q (Some q)) [''a.txt''])) fresh_world))"
    using build_index_message_always_sent[of demo_env "[''a.txt'']" fresh_world "''q''"] by blast
  then have 2: "texts (default_agent (snd (handle_uploads_and_query demo_env [''a.txt''] ''q'' fresh_world)))
       = [''ab'']"
    by (simp add: demo_txt_chunks build_index_texts fresh_world_def)
  from 1 2 show ?thesis by blast
qed

text \<open>
  The claim has the envelope skipped for an empty chunk sequence. For an empty batch of
  files the sequence is empty, and the run prints \<^verbatim>\<open>BUILD_INDEX\<close> with \<^verbatim>\<open>n_chunks\<close> 0 before
  the retrieval and the answer envelopes.
\<close>

theorem build_index_message_skipped_counterexample:
  "fst (ingest_loop demo_env [] [] fresh_world) = Inr []
   \<and> map type (printed (events (snd (handle_uploads_and_query demo_env [] ''q'' fresh_world))))
       = [''BUILD_INDEX'', ''RETRIEVAL_RESULT'', ''FINAL_RESPONSE'']
   \<and> payload (hd (printed (events (snd (handle_uploads_and_query demo_env [] ''q'' fresh_world)))))
       = Build_index_payload 0"
  by (simp add: handle_uploads_and_query_def send_mcp_message_None handle_query_def retrieve_def
      fresh_world_def RetrievalAgent_def answer_query_def call_llm_def demo_env_def emit_def
      Let_def)

end
